theory Spec2Isabelle
  imports Main "HOL-Library.Word" "HOL-Library.AList"
begin

section \<open>JavaScript values\<close>

text \<open>
  A JavaScript string is a sequence of UTF-16 code units and \<open>.length\<close> counts code
  units, so strings are lists of 16-bit words. \<open>ascii\<close> embeds a literal of the source
  that holds ASCII characters only.
\<close>

type_synonym jstring = "16 word list"

definition ascii :: "string \<Rightarrow> jstring" where
  "ascii s = map of_char s"

text \<open>
  Template literals and \<open>String(n)\<close> print an integer in decimal. \<open>String_int\<close>
  is applied to the ids only, which are integers of at most 53 bits and a sign: in this
  range every integer is a JavaScript number and its decimal digits are what
  \<open>String\<close> prints.
\<close>

definition digit :: "nat \<Rightarrow> 16 word" where
  "digit d = of_nat (48 + d)"

function String_nat :: "nat \<Rightarrow> jstring" where
  "String_nat n = (if n < 10 then [digit n] else String_nat (n div 10) @ [digit (n mod 10)])"
  by pat_completeness auto
termination
  by (relation "measure (\<lambda>n. n)") auto

declare String_nat.simps [simp del]

definition String_int :: "int \<Rightarrow> jstring" where
  "String_int i = (if i < 0 then ascii ''-'' @ String_nat (nat (- i)) else String_nat (nat i))"

text \<open>
  Values as \<open>JSON.parse\<close> produces them and as the code builds them. An object is the
  list of its own enumerable properties in creation order; the flag tells an array (whose
  properties are its indices) from a plain object. Both have \<open>typeof\<close> equal to
  \<open>object\<close>, and so has \<open>null\<close>. A value holds the own properties of an
  object and not its prototype: the code reads the properties of a \<open>programs\<close>
  object through \<open>Object.keys\<close> and \<open>JSON.stringify\<close> only, which see own
  properties.
\<close>

datatype jsval =
    JUndefined
  | JNull
  | JBool bool
  | JNum int
  | JStr jstring
  | JObj bool "(jstring \<times> jsval) list"

record js_error =
  err_name :: jstring
  err_message :: jstring
  err_code :: "jstring option"

definition TypeError :: "jstring \<Rightarrow> js_error" where
  "TypeError msg = \<lparr>err_name = ascii ''TypeError'', err_message = msg, err_code = None\<rparr>"

definition Error :: "jstring \<Rightarrow> js_error" where
  "Error msg = \<lparr>err_name = ascii ''Error'', err_message = msg, err_code = None\<rparr>"

text \<open>\<open>!v\<close> is true for the falsy values.\<close>

fun falsy :: "jsval \<Rightarrow> bool" where
  "falsy JUndefined = True"
| "falsy JNull = True"
| "falsy (JBool b) = (\<not> b)"
| "falsy (JNum n) = (n = 0)"
| "falsy (JStr s) = (s = [])"
| "falsy (JObj a ps) = False"

fun typeof_object :: "jsval \<Rightarrow> bool" where
  "typeof_object JNull = True"
| "typeof_object (JObj a ps) = True"
| "typeof_object v = False"

text \<open>
  \<open>v.programs\<close>: reading a property of \<open>null\<close> or \<open>undefined\<close> throws, a
  missing property and any property of this name on a primitive read as \<open>undefined\<close>.
\<close>

fun get_programs :: "jsval \<Rightarrow> js_error + jsval" where
  "get_programs JUndefined = Inl (TypeError (ascii ''Cannot read properties of undefined''))"
| "get_programs JNull = Inl (TypeError (ascii ''Cannot read properties of null''))"
| "get_programs (JObj a ps) =
     Inr (case map_of ps (ascii ''programs'') of None \<Rightarrow> JUndefined | Some v \<Rightarrow> v)"
| "get_programs v = Inr JUndefined"

text \<open>\<open>Object.keys(v)\<close>: throws on \<open>null\<close> and \<open>undefined\<close>, lists the indices of a
  string, and is empty for the other primitives.\<close>

fun Object_keys :: "jsval \<Rightarrow> js_error + jstring list" where
  "Object_keys JUndefined = Inl (TypeError (ascii ''Cannot convert undefined or null to object''))"
| "Object_keys JNull = Inl (TypeError (ascii ''Cannot convert undefined or null to object''))"
| "Object_keys (JObj a ps) = Inr (map fst ps)"
| "Object_keys (JStr s) = Inr (map String_nat [0..<length s])"
| "Object_keys v = Inr []"

text \<open>
  \<open>o[k] = v\<close> in strict mode (the sources are ES modules): anything but an object
  throws. The objects of \<open>JSON.parse\<close> and of object literals inherit the accessor
  \<open>__proto__\<close> of \<open>Object.prototype\<close>. Writing the key \<open>__proto__\<close> on an
  object that has no own property of this name runs the setter of that accessor, which
  replaces the prototype of the object (or does nothing, when the value is a primitive)
  and creates no property. Every other write gets or replaces the own property.
\<close>

definition runs_proto_setter :: "(jstring \<times> jsval) list \<Rightarrow> jstring \<Rightarrow> bool" where
  "runs_proto_setter ps k = (k = ascii ''__proto__'' \<and> map_of ps k = None)"

fun set_prop :: "jsval \<Rightarrow> jstring \<Rightarrow> jsval \<Rightarrow> js_error + jsval" where
  "set_prop (JObj a ps) k v =
     (if runs_proto_setter ps k then Inr (JObj a ps)
      else Inr (JObj a (AList.update k v ps)))"
| "set_prop u k v = Inl (TypeError (ascii ''Cannot set properties''))"

section \<open>src/db.js\<close>

text \<open>
  A normalized program object, as \<open>normalizeProgram\<close> builds it; the id may still be a
  number when a caller passes one, which is why the code applies \<open>String\<close> to it. A
  numeric id is an integer \<open>n\<close> with \<open>- 2^53 \<le> n < 2^53\<close>, held as a 54-bit word
  that \<open>sint\<close> reads with its sign.
\<close>

datatype js_id = IdNum "54 word" | IdStr jstring

fun String_id :: "js_id \<Rightarrow> jstring" where
  "String_id (IdNum n) = String_int (sint n)"
| "String_id (IdStr s) = s"

record program =
  prog_id :: js_id
  prog_handle :: jstring
  prog_name :: jstring
  prog_state :: jstring
  prog_submission_state :: jstring
  prog_offers_bounties :: bool
  prog_started_accepting_at :: "jstring option"

definition createEmptyDb :: jsval where
  "createEmptyDb =
     JObj False [(ascii ''programs'', JObj False []), (ascii ''last_run'', JNull)]"

definition getKnownIds :: "jsval \<Rightarrow> js_error + jstring list" where
  "getKnownIds db =
     (case get_programs db of
        Inl e \<Rightarrow> Inl e
      | Inr ps \<Rightarrow> Object_keys ps)"

definition diffPrograms :: "jsval \<Rightarrow> program list \<Rightarrow> js_error + program list" where
  "diffPrograms db currentPrograms =
     (case getKnownIds db of
        Inl e \<Rightarrow> Inl e
      | Inr knownIds \<Rightarrow>
          Inr (filter (\<lambda>p. String_id (prog_id p) \<notin> set knownIds) currentPrograms))"

text \<open>
  The record stored for a program. \<open>first_seen\<close> is the reading of the clock at the
  moment of the insertion.
\<close>

definition nullable :: "jstring option \<Rightarrow> jsval" where
  "nullable s = (case s of None \<Rightarrow> JNull | Some t \<Rightarrow> JStr t)"

definition persisted :: "program \<Rightarrow> jstring \<Rightarrow> jsval" where
  "persisted p first_seen =
     JObj False
       [(ascii ''handle'', JStr (prog_handle p)),
        (ascii ''name'', JStr (prog_name p)),
        (ascii ''state'', JStr (prog_state p)),
        (ascii ''submission_state'', JStr (prog_submission_state p)),
        (ascii ''offers_bounties'', JBool (prog_offers_bounties p)),
        (ascii ''started_accepting_at'', nullable (prog_started_accepting_at p)),
        (ascii ''first_seen'', JStr first_seen)]"

text \<open>
  \<open>db.programs[k] = v\<close>: the property is written into the object that
  \<open>db.programs\<close> refers to, so the database holds the updated object afterwards.
\<close>

definition put_program :: "jsval \<Rightarrow> jstring \<Rightarrow> jsval \<Rightarrow> js_error + jsval" where
  "put_program db k v =
     (case get_programs db of
        Inl e \<Rightarrow> Inl e
      | Inr ps \<Rightarrow>
          (case set_prop ps k v of
             Inl e \<Rightarrow> Inl e
           | Inr ps' \<Rightarrow> set_prop db (ascii ''programs'') ps'))"

text \<open>
  The loop of \<open>addPrograms\<close>. \<open>now t\<close> is the \<open>t\<close>-th reading of
  \<open>new Date().toISOString()\<close>; the state carries the database, the list \<open>added\<close> and
  the number of readings so far. The set \<open>knownIds\<close> is computed before the loop and
  is not changed by it. A throw leaves the database as mutated so far.
\<close>

fun addPrograms_loop ::
  "(nat \<Rightarrow> jstring) \<Rightarrow> jstring list \<Rightarrow> program list \<Rightarrow> jsval \<Rightarrow> program list \<Rightarrow> nat
     \<Rightarrow> (js_error + program list) \<times> jsval \<times> nat" where
  "addPrograms_loop now knownIds [] db added t = (Inr added, db, t)"
| "addPrograms_loop now knownIds (program # programs) db added t =
     (if String_id (prog_id program) \<notin> set knownIds then
        (case put_program db (String_id (prog_id program)) (persisted program (now t)) of
           Inl e \<Rightarrow> (Inl e, db, Suc t)
         | Inr db' \<Rightarrow> addPrograms_loop now knownIds programs db' (added @ [program]) (Suc t))
      else addPrograms_loop now knownIds programs db added t)"

definition addPrograms ::
  "(nat \<Rightarrow> jstring) \<Rightarrow> jsval \<Rightarrow> program list \<Rightarrow> nat \<Rightarrow> (js_error + program list) \<times> jsval \<times> nat" where
  "addPrograms now db programs t =
     (case getKnownIds db of
        Inl e \<Rightarrow> (Inl e, db, t)
      | Inr knownIds \<Rightarrow> addPrograms_loop now knownIds programs db [] t)"

text \<open>
  Views used to state properties: a state is a value whose \<open>programs\<close> field is an
  object, and \<open>record_of db k\<close> is the record stored under the key \<open>k\<close>, if any.
\<close>

definition is_state :: "jsval \<Rightarrow> bool" where
  "is_state db = (case get_programs db of Inr (JObj a ps) \<Rightarrow> True | _ \<Rightarrow> False)"

definition record_of :: "jsval \<Rightarrow> jstring \<Rightarrow> jsval option" where
  "record_of db k = (case get_programs db of Inr (JObj a ps) \<Rightarrow> map_of ps k | _ \<Rightarrow> None)"

text \<open>
  A sequence of calls on one database object. \<open>diffPrograms\<close> only reads;
  \<open>addPrograms\<close> mutates the database and reads the clock.
\<close>

datatype call = Diff "program list" | Add "program list"

fun calls :: "(nat \<Rightarrow> jstring) \<Rightarrow> call list \<Rightarrow> jsval \<Rightarrow> nat \<Rightarrow> jsval \<times> nat" where
  "calls now [] db t = (db, t)"
| "calls now (Diff B # cs) db t = calls now cs db t"
| "calls now (Add B # cs) db t =
     (case addPrograms now db B t of (r, db', t') \<Rightarrow> calls now cs db' t')"

section \<open>src/h1-client.js\<close>

text \<open>
  The network and the timer are explicit: a trace records every call of \<open>fetchFn\<close> and
  every \<open>sleep\<close>, and \<open>fetchFn\<close> answers a request, given the trace so far, with a
  response or by throwing. \<open>response.ok\<close> is the getter of the Fetch standard.
\<close>

datatype 'r event = Fetch 'r | Sleep nat

record response =
  status :: nat
  statusText :: jstring

datatype outcome = Responded response | Threw js_error

definition ok :: "response \<Rightarrow> bool" where
  "ok r = (200 \<le> status r \<and> status r \<le> 299)"

definition MAX_RETRIES :: nat where
  "MAX_RETRIES = 3"

definition BASE_DELAY_MS :: nat where
  "BASE_DELAY_MS = 1000"

definition http_error :: "response \<Rightarrow> js_error" where
  "http_error r =
     Error (ascii ''HackerOne API error: HTTP '' @ String_nat (status r) @ ascii '' '' @ statusText r)"

text \<open>
  \<open>attempt\<close> counts from 1. The recursive calls are returned without \<open>await\<close>, so
  what they throw is not caught again by the caller's \<open>catch\<close>; the \<open>catch\<close> block
  sees what \<open>fetchFn\<close> throws and the HTTP error thrown in the \<open>try\<close> block.
\<close>

function fetchWithRetry ::
  "('r event list \<Rightarrow> 'r \<Rightarrow> outcome) \<Rightarrow> 'r \<Rightarrow> nat \<Rightarrow> 'r event list
     \<Rightarrow> (js_error + response) \<times> 'r event list" where
  "fetchWithRetry fetchFn req attempt tr =
     (let tr1 = tr @ [Fetch req];
          delay = BASE_DELAY_MS * 2 ^ (attempt - 1)
      in case fetchFn tr req of
           Responded response \<Rightarrow>
             if (status response = 429 \<or> status response \<ge> 500) \<and> attempt \<le> MAX_RETRIES
             then fetchWithRetry fetchFn req (attempt + 1) (tr1 @ [Sleep delay])
             else if \<not> ok response
             then (if attempt \<le> MAX_RETRIES \<and> err_name (http_error response) \<noteq> ascii ''Error''
                   then fetchWithRetry fetchFn req (attempt + 1) (tr1 @ [Sleep delay])
                   else (Inl (http_error response), tr1))
             else (Inr response, tr1)
         | Threw error \<Rightarrow>
             if attempt \<le> MAX_RETRIES \<and> err_name error \<noteq> ascii ''Error''
             then fetchWithRetry fetchFn req (attempt + 1) (tr1 @ [Sleep delay])
             else (Inl error, tr1))"
  by pat_completeness auto
termination
  by (relation "measure (\<lambda>(fetchFn, req, attempt, tr). Suc MAX_RETRIES - attempt)") auto

declare fetchWithRetry.simps [simp del]

fun is_fetch :: "'r event \<Rightarrow> bool" where
  "is_fetch (Fetch r) = True"
| "is_fetch (Sleep ms) = False"

definition always_503 :: "unit event list \<Rightarrow> unit \<Rightarrow> outcome" where
  "always_503 tr req = Responded \<lparr>status = 503, statusText = ascii ''Service Unavailable''\<rparr>"

definition always_refused :: "unit event list \<Rightarrow> unit \<Rightarrow> outcome" where
  "always_refused tr req = Threw (Error (ascii ''connect ECONNREFUSED''))"

definition always_fetch_failed :: "unit event list \<Rightarrow> unit \<Rightarrow> outcome" where
  "always_fetch_failed tr req = Threw (TypeError (ascii ''fetch failed''))"

section \<open>src/alerter.js\<close>

text \<open>The characters of the source outside ASCII, as UTF-16 code units.\<close>

definition bell :: jstring where
  "bell = [0xD83D, 0xDD14]"

definition em_dash :: jstring where
  "em_dash = [0x2014]"

definition bullet :: jstring where
  "bullet = [0x2022]"

definition arrow :: jstring where
  "arrow = [0x2192]"

definition money_bag :: jstring where
  "money_bag = [0xD83D, 0xDCB0]"

definition medal :: jstring where
  "medal = [0xD83C, 0xDFC5]"

definition nl :: jstring where
  "nl = [0x0A]"

text \<open>\<open>s.replace(/c/g, rep)\<close> for a pattern of one character.\<close>

definition replace_all :: "16 word \<Rightarrow> jstring \<Rightarrow> jstring \<Rightarrow> jstring" where
  "replace_all c rep s = concat (map (\<lambda>x. if x = c then rep else [x]) s)"

definition escapeHtml :: "jstring \<Rightarrow> jstring" where
  "escapeHtml text =
     replace_all 0x3E (ascii ''&gt;'')
       (replace_all 0x3C (ascii ''&lt;'')
         (replace_all 0x26 (ascii ''&amp;'') text))"

definition formatTelegramEntry :: "program \<Rightarrow> jstring" where
  "formatTelegramEntry p =
     (let bounty = (if prog_offers_bounties p then money_bag @ ascii '' Bounty''
                    else medal @ ascii '' VDP'');
          safeName = escapeHtml (prog_name p);
          safeHandle = escapeHtml (prog_handle p)
      in bullet @ ascii '' <b>'' @ safeName @ ascii ''</b> (<code>'' @ safeHandle
           @ ascii ''</code>) '' @ em_dash @ ascii '' '' @ bounty @ nl @ ascii ''  '' @ arrow
           @ ascii '' https://hackerone.com/'' @ prog_handle p)"

definition formatDiscordEntry :: "program \<Rightarrow> jstring" where
  "formatDiscordEntry p =
     (let bounty = (if prog_offers_bounties p then money_bag @ ascii '' Bounty''
                    else medal @ ascii '' VDP'')
      in bullet @ ascii '' **'' @ prog_name p @ ascii ''** (`'' @ prog_handle p
           @ ascii ''`) '' @ em_dash @ ascii '' '' @ bounty @ nl @ ascii ''  '' @ arrow
           @ ascii '' <https://hackerone.com/'' @ prog_handle p @ ascii ''>'')"

text \<open>\<open>xs.join(sep)\<close>\<close>

fun join :: "jstring \<Rightarrow> jstring list \<Rightarrow> jstring" where
  "join sep [] = []"
| "join sep [x] = x"
| "join sep (x # y # ys) = x @ sep @ join sep (y # ys)"

definition singleHeader :: "jstring \<Rightarrow> nat \<Rightarrow> jstring" where
  "singleHeader headerPrefix n =
     bell @ ascii '' '' @ headerPrefix @ ascii '' '' @ em_dash @ ascii '' '' @ String_nat n
       @ ascii '' new HackerOne program'' @ (if n > 1 then ascii ''s'' else [])
       @ ascii '' detected!''"

text \<open>The header of a part: \<open>n\<close> is \<open>programs.length\<close>, \<open>part\<close> is
  \<open>chunks.length + 1\<close>.\<close>

definition header :: "jstring \<Rightarrow> nat \<Rightarrow> nat \<Rightarrow> jstring" where
  "header headerPrefix n part =
     bell @ ascii '' '' @ headerPrefix @ ascii '' '' @ em_dash @ ascii '' '' @ String_nat n
       @ ascii '' new programs (part '' @ String_nat part @ ascii ''):''"

text \<open>
  The body of the loop over \<open>allEntries\<close>, with the variables \<open>chunks\<close>,
  \<open>currentEntries\<close> and \<open>currentLength\<close> as its state, and the loop itself.
\<close>

definition chunk_step ::
  "jstring \<Rightarrow> nat \<Rightarrow> nat \<Rightarrow> jstring list \<times> jstring list \<times> nat \<Rightarrow> jstring
     \<Rightarrow> jstring list \<times> jstring list \<times> nat" where
  "chunk_step headerPrefix n maxLength st entry =
     (case st of
        (chunks, currentEntries, currentLength) \<Rightarrow>
          let chunkHeader = header headerPrefix n (length chunks + 1) @ nl @ nl;
              separatorLength = (if length currentEntries > 0 then 2 else 0);
              projectedLength =
                length chunkHeader + currentLength + separatorLength + length entry
          in if projectedLength > maxLength \<and> length currentEntries > 0
             then (chunks @ [header headerPrefix n (length chunks + 1) @ nl @ nl
                               @ join (nl @ nl) currentEntries],
                   [entry], length entry)
             else (chunks, currentEntries @ [entry],
                   currentLength + (if length (currentEntries @ [entry]) > 1 then 2 else 0)
                     + length entry))"

primrec chunk_loop ::
  "jstring \<Rightarrow> nat \<Rightarrow> nat \<Rightarrow> jstring list \<Rightarrow> jstring list \<times> jstring list \<times> nat
     \<Rightarrow> jstring list \<times> jstring list \<times> nat" where
  "chunk_loop headerPrefix n maxLength [] st = st"
| "chunk_loop headerPrefix n maxLength (entry # rest) st =
     chunk_loop headerPrefix n maxLength rest (chunk_step headerPrefix n maxLength st entry)"

definition chunkMessages ::
  "'p list \<Rightarrow> ('p \<Rightarrow> jstring) \<Rightarrow> jstring \<Rightarrow> nat \<Rightarrow> jstring list" where
  "chunkMessages programs entryFormatter headerPrefix maxLength =
     (if length programs = 0 then []
      else
        let allEntries = map entryFormatter programs;
            singleMessage = singleHeader headerPrefix (length programs) @ nl @ nl
                              @ join (nl @ nl) allEntries
        in if length singleMessage \<le> maxLength then [singleMessage]
           else
             (case chunk_loop headerPrefix (length programs) maxLength allEntries ([], [], 0) of
                (chunks, currentEntries, currentLength) \<Rightarrow>
                  if length currentEntries > 0
                  then chunks @ [header headerPrefix (length programs) (length chunks + 1)
                                   @ nl @ nl @ join (nl @ nl) currentEntries]
                  else chunks))"

definition TELEGRAM_MAX_LENGTH :: nat where
  "TELEGRAM_MAX_LENGTH = 4096"

definition DISCORD_MAX_LENGTH :: nat where
  "DISCORD_MAX_LENGTH = 2000"

text \<open>
  The environment variables read by the senders; an unset variable is \<open>None\<close>, and an
  empty string is falsy like an unset one. A request is the URL and the object that is
  serialised into the body.
\<close>

record environment =
  TELEGRAM_BOT_TOKEN :: "jstring option"
  TELEGRAM_CHAT_ID :: "jstring option"
  DISCORD_WEBHOOK_URL :: "jstring option"

definition unset :: "jstring option \<Rightarrow> bool" where
  "unset v = (case v of None \<Rightarrow> True | Some s \<Rightarrow> s = [])"

datatype request = POST jstring jsval

definition telegram_request :: "environment \<Rightarrow> jstring \<Rightarrow> request" where
  "telegram_request env text =
     POST (ascii ''https://api.telegram.org/bot'' @ the (TELEGRAM_BOT_TOKEN env)
             @ ascii ''/sendMessage'')
       (JObj False
          [(ascii ''chat_id'', JStr (the (TELEGRAM_CHAT_ID env))),
           (ascii ''text'', JStr text),
           (ascii ''parse_mode'', JStr (ascii ''HTML'')),
           (ascii ''disable_web_page_preview'', JBool True)])"

definition discord_request :: "environment \<Rightarrow> jstring \<Rightarrow> request" where
  "discord_request env text =
     POST (the (DISCORD_WEBHOOK_URL env))
       (JObj False
          [(ascii ''content'', JStr text),
           (ascii ''username'', JStr (ascii ''h1-watcher''))])"

text \<open>
  The senders. Whatever \<open>fetchFn\<close> throws, and whatever reading the body of a failed
  response throws, is caught by the \<open>catch\<close> block, which returns \<open>false\<close>.
\<close>

definition sendTelegram ::
  "environment \<Rightarrow> (request event list \<Rightarrow> request \<Rightarrow> outcome) \<Rightarrow> jstring \<Rightarrow> request event list
     \<Rightarrow> bool \<times> request event list" where
  "sendTelegram env fetchFn text tr =
     (if unset (TELEGRAM_BOT_TOKEN env) \<or> unset (TELEGRAM_CHAT_ID env) then (False, tr)
      else
        (case fetchFn tr (telegram_request env text) of
           Responded response \<Rightarrow>
             if \<not> ok response then (False, tr @ [Fetch (telegram_request env text)])
             else (True, tr @ [Fetch (telegram_request env text)])
         | Threw error \<Rightarrow> (False, tr @ [Fetch (telegram_request env text)])))"

definition sendDiscord ::
  "environment \<Rightarrow> (request event list \<Rightarrow> request \<Rightarrow> outcome) \<Rightarrow> jstring \<Rightarrow> request event list
     \<Rightarrow> bool \<times> request event list" where
  "sendDiscord env fetchFn text tr =
     (if unset (DISCORD_WEBHOOK_URL env) then (False, tr)
      else
        (case fetchFn tr (discord_request env text) of
           Responded response \<Rightarrow>
             if \<not> ok response \<and> status response \<noteq> 204
             then (False, tr @ [Fetch (discord_request env text)])
             else (True, tr @ [Fetch (discord_request env text)])
         | Threw error \<Rightarrow> (False, tr @ [Fetch (discord_request env text)])))"

text \<open>
  The sending loop of \<open>notify\<close>, the same for both channels: \<open>channelOk\<close> is the
  variable \<open>telegramOk\<close> or \<open>discordOk\<close>, and the loop sleeps after every chunk but
  the last.
\<close>

fun send_chunks ::
  "(jstring \<Rightarrow> request event list \<Rightarrow> bool \<times> request event list) \<Rightarrow> jstring list \<Rightarrow> bool
     \<Rightarrow> request event list \<Rightarrow> bool \<times> request event list" where
  "send_chunks send [] channelOk tr = (channelOk, tr)"
| "send_chunks send (chunk # rest) channelOk tr =
     (case send chunk tr of
        (sent, tr1) \<Rightarrow>
          send_chunks send rest (if \<not> sent then False else channelOk)
            (if rest \<noteq> [] then tr1 @ [Sleep 500] else tr1))"

record alert_result =
  telegram :: bool
  discord :: bool

text \<open>\<open>newPrograms\<close> may be \<open>null\<close> or \<open>undefined\<close>, which is \<open>None\<close>.\<close>

definition notify ::
  "environment \<Rightarrow> (request event list \<Rightarrow> request \<Rightarrow> outcome) \<Rightarrow> program list option
     \<Rightarrow> request event list \<Rightarrow> alert_result \<times> request event list" where
  "notify env fetchFn newPrograms tr =
     (case newPrograms of
        None \<Rightarrow> (\<lparr>telegram = False, discord = False\<rparr>, tr)
      | Some ps \<Rightarrow>
          if length ps = 0 then (\<lparr>telegram = False, discord = False\<rparr>, tr)
          else
            let telegramChunks =
                  chunkMessages ps formatTelegramEntry (ascii ''<b>h1-watcher</b>'')
                    TELEGRAM_MAX_LENGTH;
                discordChunks =
                  chunkMessages ps formatDiscordEntry (ascii ''**h1-watcher**'')
                    DISCORD_MAX_LENGTH;
                (telegramOk, tr1) =
                  (if length telegramChunks > 0
                   then send_chunks (sendTelegram env fetchFn) telegramChunks True tr
                   else (False, tr));
                (discordOk, tr2) =
                  (if length discordChunks > 0
                   then send_chunks (sendDiscord env fetchFn) discordChunks True tr1
                   else (False, tr1))
            in (\<lparr>telegram = telegramOk, discord = discordOk\<rparr>, tr2))"

text \<open>
  What the specification says of a channel: every chunk is sent, in order, with the
  pacing delay between two sends, and the results are collected one by one.
\<close>

fun each_send ::
  "(jstring \<Rightarrow> request event list \<Rightarrow> bool \<times> request event list) \<Rightarrow> jstring list
     \<Rightarrow> request event list \<Rightarrow> bool list \<times> request event list" where
  "each_send send [] tr = ([], tr)"
| "each_send send (chunk # rest) tr =
     (case send chunk tr of
        (r, tr1) \<Rightarrow>
          (case each_send send rest (if rest \<noteq> [] then tr1 @ [Sleep 500] else tr1) of
             (rs, tr2) \<Rightarrow> (r # rs, tr2)))"

section \<open>src/db.js: load and save\<close>

text \<open>
  A path of the file system holds nothing, a directory, or a file. A file is described
  by what reading and parsing it gives: \<open>readFile\<close> throws, \<open>JSON.parse\<close> throws,
  or the text parses to a value. The text \<open>JSON.stringify(db, null, 2)\<close> plus a newline
  that \<open>save\<close> writes is the file \<open>Json db\<close>.
\<close>

datatype file_entry = Directory | Unreadable js_error | Unparseable js_error | Json jsval

definition EISDIR :: js_error where
  "EISDIR = \<lparr>err_name = ascii ''Error'',
     err_message = ascii ''EISDIR: illegal operation on a directory, read'',
     err_code = Some (ascii ''EISDIR'')\<rparr>"

text \<open>The \<open>try\<close> block of \<open>load\<close>; \<open>Inl\<close> is a throw.\<close>

definition load_try :: "(jstring \<Rightarrow> file_entry option) \<Rightarrow> jstring \<Rightarrow> js_error + jsval" where
  "load_try files dbPath =
     (case files dbPath of
        None \<Rightarrow> Inr createEmptyDb
      | Some Directory \<Rightarrow> Inl EISDIR
      | Some (Unreadable e) \<Rightarrow> Inl e
      | Some (Unparseable e) \<Rightarrow> Inl e
      | Some (Json data) \<Rightarrow>
          if falsy data then Inr createEmptyDb
          else
            (case get_programs data of
               Inl e \<Rightarrow> Inl e
             | Inr ps \<Rightarrow>
                 if \<not> typeof_object ps then Inr createEmptyDb
                 else
                   (case Object_keys ps of
                      Inl e \<Rightarrow> Inl e
                    | Inr knownKeys \<Rightarrow> Inr data)))"

definition load :: "(jstring \<Rightarrow> file_entry option) \<Rightarrow> jstring \<Rightarrow> js_error + jsval" where
  "load files dbPath =
     (case load_try files dbPath of
        Inr v \<Rightarrow> Inr v
      | Inl error \<Rightarrow>
          if err_code error = Some (ascii ''ENOENT'') then Inr createEmptyDb
          else Inr createEmptyDb)"

text \<open>
  The world of a run: the file system, the number of clock readings so far, and the calls
  of the notifier and of the side dispatch. The clock, \<open>path.dirname\<close> and the failures
  of \<open>mkdir\<close> and \<open>writeFile\<close> are given from outside.
\<close>

datatype effect = Notified "program list" | Dispatched "program list"

record world =
  files :: "jstring \<Rightarrow> file_entry option"
  ticks :: nat
  effects :: "effect list"

record system =
  clock :: "nat \<Rightarrow> jstring"
  dirname :: "jstring \<Rightarrow> jstring"
  mkdir_error :: "jstring \<Rightarrow> js_error option"
  writeFile_error :: "jstring \<Rightarrow> js_error option"

definition save ::
  "system \<Rightarrow> jsval \<Rightarrow> jstring \<Rightarrow> world \<Rightarrow> (js_error + unit) \<times> jsval \<times> world" where
  "save sys db dbPath w =
     (let dir = dirname sys dbPath
      in (case (if files w dir = None then mkdir_error sys dir else None) of
            Some e \<Rightarrow> (Inl e, db, w)
          | None \<Rightarrow>
              (let w1 = (if files w dir = None
                         then w\<lparr>files := (files w)(dir := Some Directory)\<rparr> else w);
                   w2 = w1\<lparr>ticks := Suc (ticks w1)\<rparr>
               in (case set_prop db (ascii ''last_run'') (JStr (clock sys (ticks w1))) of
                     Inl e \<Rightarrow> (Inl e, db, w2)
                   | Inr db' \<Rightarrow>
                       (case writeFile_error sys dbPath of
                          Some e \<Rightarrow> (Inl e, db', w2)
                        | None \<Rightarrow>
                            (Inr (), db',
                             w2\<lparr>files := (files w2)(dbPath := Some (Json db'))\<rparr>))))))"

section \<open>src/watcher.js\<close>

text \<open>
  The injected dependencies: what \<open>fetchPrograms()\<close> resolves to or throws, the
  notifier and the side dispatch, and the path of the state file. The calls of the logger
  change neither a result nor the state, here and in the other modules, and are left out.
\<close>

record run_result =
  newPrograms :: "program list"
  totalPrograms :: nat

record deps =
  fetchPrograms :: "js_error + program list"
  notifyFn :: "program list \<Rightarrow> js_error + alert_result"
  dispatchReconFn :: "program list \<Rightarrow> js_error + bool"
  dbPath :: jstring

text \<open>The two ends of \<open>run\<close>: saving and returning the summary.\<close>

definition save_and_return ::
  "system \<Rightarrow> jsval \<Rightarrow> jstring \<Rightarrow> run_result \<Rightarrow> world \<Rightarrow> (js_error + run_result) \<times> world" where
  "save_and_return sys state path result w =
     (case save sys state path w of
        (Inl e, state', w') \<Rightarrow> (Inl e, w')
      | (Inr u, state', w') \<Rightarrow> (Inr result, w'))"

definition run :: "system \<Rightarrow> deps \<Rightarrow> world \<Rightarrow> (js_error + run_result) \<times> world" where
  "run sys d w =
     (case load (files w) (dbPath d) of
        Inl e \<Rightarrow> (Inl e, w)
      | Inr state \<Rightarrow>
          (case fetchPrograms d of
             Inl e \<Rightarrow> (Inl e, w)
           | Inr currentPrograms \<Rightarrow>
               (case diffPrograms state currentPrograms of
                  Inl e \<Rightarrow> (Inl e, w)
                | Inr new \<Rightarrow>
                    (if length new = 0 then
                       save_and_return sys state (dbPath d)
                         \<lparr>newPrograms = [], totalPrograms = length currentPrograms\<rparr> w
                     else
                       (let w1 = w\<lparr>effects := effects w @ [Notified new]\<rparr>;
                            w2 = w1\<lparr>effects := effects w1 @ [Dispatched new]\<rparr>
                        in (case notifyFn d new of
                              Inl e \<Rightarrow> (Inl e, w1)
                            | Inr alertResult \<Rightarrow>
                                (case dispatchReconFn d new of
                                   Inl e \<Rightarrow> (Inl e, w2)
                                 | Inr dispatched \<Rightarrow>
                                     (case addPrograms (clock sys) state new (ticks w2) of
                                        (Inl e, state1, t1) \<Rightarrow> (Inl e, w2\<lparr>ticks := t1\<rparr>)
                                      | (Inr added, state1, t1) \<Rightarrow>
                                          save_and_return sys state1 (dbPath d)
                                            \<lparr>newPrograms = new,
                                             totalPrograms = length currentPrograms\<rparr>
                                            (w2\<lparr>ticks := t1\<rparr>)))))))))"

section \<open>Invariant of the chunking loop\<close>

text \<open>
  Before each iteration with \<open>r\<close> entries still to come: the closed chunks are within
  the limit, \<open>currentLength\<close> is the length of the joined current entries, the current
  chunk with its header is within the limit, and the part numbers stay below the number
  of programs. An entry fits when it is within the limit together with the header of any
  part and the blank line after it.
\<close>

definition chunk_inv ::
  "jstring \<Rightarrow> nat \<Rightarrow> nat \<Rightarrow> nat \<Rightarrow> jstring list \<times> jstring list \<times> nat \<Rightarrow> bool" where
  "chunk_inv headerPrefix n maxLength r st =
     (case st of
        (chunks, currentEntries, currentLength) \<Rightarrow>
          (\<forall>c \<in> set chunks. length c \<le> maxLength)
          \<and> currentLength = length (join (nl @ nl) currentEntries)
          \<and> (currentEntries \<noteq> [] \<longrightarrow>
                length (header headerPrefix n (length chunks + 1)) + 2 + currentLength
                  \<le> maxLength)
          \<and> length chunks + r + (if currentEntries = [] then 0 else 1) \<le> n)"

definition fits :: "jstring \<Rightarrow> nat \<Rightarrow> nat \<Rightarrow> jstring \<Rightarrow> bool" where
  "fits headerPrefix n maxLength entry =
     (\<forall>k \<in> {1..n}. length (header headerPrefix n k) + 2 + length entry \<le> maxLength)"

section \<open>Sample data\<close>

definition acme :: program where
  "acme = \<lparr>prog_id = IdStr (ascii ''100''), prog_handle = ascii ''acme'',
     prog_name = ascii ''Acme Corp'', prog_state = ascii ''public_mode'',
     prog_submission_state = ascii ''open'', prog_offers_bounties = True,
     prog_started_accepting_at = None\<rparr>"

definition acme_renamed :: program where
  "acme_renamed = \<lparr>prog_id = IdStr (ascii ''100''), prog_handle = ascii ''acme-labs'',
     prog_name = ascii ''Acme Labs'', prog_state = ascii ''public_mode'',
     prog_submission_state = ascii ''open'', prog_offers_bounties = False,
     prog_started_accepting_at = None\<rparr>"

definition proto_program :: program where
  "proto_program = acme\<lparr>prog_id := IdStr (ascii ''__proto__'')\<rparr>"

definition known100 :: jsval where
  "known100 =
     JObj False
       [(ascii ''programs'',
         JObj False [(ascii ''100'', persisted acme (ascii ''2024-01-01T00:00:00.000Z''))]),
        (ascii ''last_run'', JNull)]"

definition sample_clock :: "nat \<Rightarrow> jstring" where
  "sample_clock t = ascii ''2024-06-01T00:00:00.'' @ String_nat t @ ascii ''Z''"

definition always_429 :: "unit event list \<Rightarrow> unit \<Rightarrow> outcome" where
  "always_429 tr req = Responded \<lparr>status = 429, statusText = ascii ''Too Many Requests''\<rparr>"

definition array_programs :: jsval where
  "array_programs = JObj False [(ascii ''programs'', JObj True [])]"

definition foo_bar :: jsval where
  "foo_bar = JObj False [(ascii ''foo'', JStr (ascii ''bar''))]"

definition db_json :: jstring where
  "db_json = ascii ''state/db.json''"

definition sample_system :: system where
  "sample_system = \<lparr>clock = sample_clock, dirname = (\<lambda>p. ascii ''state''),
     mkdir_error = (\<lambda>p. None), writeFile_error = (\<lambda>p. None)\<rparr>"

definition sample_deps :: deps where
  "sample_deps = \<lparr>fetchPrograms = Inr [acme],
     notifyFn = (\<lambda>ps. Inr \<lparr>telegram = True, discord = True\<rparr>),
     dispatchReconFn = (\<lambda>ps. Inr False),
     dbPath = db_json\<rparr>"

definition sample_world :: world where
  "sample_world = \<lparr>files = (\<lambda>p. if p = db_json then Some (Json known100) else None),
     ticks = 0, effects = []\<rparr>"

definition three_entries :: "jstring list" where
  "three_entries = [ascii ''aaaa'', ascii ''bbbb'', ascii ''cccc'']"

definition long_acme :: program where
  "long_acme = acme\<lparr>prog_name := replicate 1930 0x41\<rparr>"

definition long_acme_renamed :: program where
  "long_acme_renamed = acme_renamed\<lparr>prog_name := replicate 1930 0x42\<rparr>"

definition sample_environment :: environment where
  "sample_environment = \<lparr>TELEGRAM_BOT_TOKEN = Some (ascii ''fake-bot-token''),
     TELEGRAM_CHAT_ID = Some (ascii ''12345''),
     DISCORD_WEBHOOK_URL = Some (ascii ''https://discord.com/api/webhooks/fake'')\<rparr>"

definition always_ok :: "request event list \<Rightarrow> request \<Rightarrow> outcome" where
  "always_ok tr req = Responded \<lparr>status = 200, statusText = ascii ''OK''\<rparr>"

definition first_fails :: "request event list \<Rightarrow> request \<Rightarrow> outcome" where
  "first_fails tr req =
     (if tr = [] then Responded \<lparr>status = 500, statusText = ascii ''Internal Server Error''\<rparr>
      else Responded \<lparr>status = 204, statusText = ascii ''No Content''\<rparr>)"

section \<open>Properties of src/db.js\<close>

lemma get_programs_obj:
  "get_programs db = Inr (JObj a ps) \<Longrightarrow> \<exists>b props. db = JObj b props \<and> map_of props (ascii ''programs'') = Some (JObj a ps)"
  by (cases db) (auto split: option.splits)

lemma is_stateE: "is_state db \<Longrightarrow> \<exists>a ps. get_programs db = Inr (JObj a ps)"
  by (auto simp: is_state_def split: sum.splits jsval.splits)

lemma is_stateI: "get_programs db = Inr (JObj a ps) \<Longrightarrow> is_state db"
  by (simp add: is_state_def)

lemma record_of_obj: "get_programs db = Inr (JObj a ps) \<Longrightarrow> record_of db k = map_of ps k"
  by (simp add: record_of_def)

lemma getKnownIds_obj:
  "get_programs db = Inr (JObj a ps) \<Longrightarrow> getKnownIds db = Inr (map fst ps)"
  by (simp add: getKnownIds_def)

lemma diffPrograms_obj:
  "get_programs db = Inr (JObj a ps) \<Longrightarrow>
   diffPrograms db B = Inr (filter (\<lambda>p. record_of db (String_id (prog_id p)) = None) B)"
  by (simp add: diffPrograms_def getKnownIds_obj record_of_obj map_of_eq_None_iff)

lemma programs_not_proto: "ascii ''programs'' \<noteq> ascii ''__proto__''"
  by (simp add: ascii_def)

lemma last_run_not_proto: "ascii ''last_run'' \<noteq> ascii ''__proto__''"
  by (simp add: ascii_def)

lemma put_program_obj:
  assumes "get_programs db = Inr (JObj a ps)"
  shows "\<exists>db'. put_program db k v = Inr db'
    \<and> get_programs db' =
        Inr (JObj a (if runs_proto_setter ps k then ps else AList.update k v ps))"
proof -
  from get_programs_obj [OF assms] obtain b props where
    db: "db = JObj b props" and "map_of props (ascii ''programs'') = Some (JObj a ps)" by blast
  then show ?thesis
    using programs_not_proto
    by (cases "runs_proto_setter ps k")
      (simp_all add: put_program_def update_conv' runs_proto_setter_def [of props])
qed

lemma written_properties:
  assumes "ps1 = (if runs_proto_setter ps k then ps else AList.update k v ps)"
  shows "(\<forall>k'. k' \<noteq> k \<longrightarrow> map_of ps1 k' = map_of ps k')
    \<and> (\<forall>k'. map_of ps k' \<noteq> None \<longrightarrow> map_of ps1 k' \<noteq> None)
    \<and> (k \<noteq> ascii ''__proto__'' \<longrightarrow> map_of ps1 k \<noteq> None)"
  using assms by (auto simp: update_conv' runs_proto_setter_def)

lemma addPrograms_loop_obj:
  "get_programs db = Inr (JObj a ps) \<Longrightarrow>
   \<exists>db' ps'. addPrograms_loop now known B db added t =
       (Inr (added @ filter (\<lambda>p. String_id (prog_id p) \<notin> set known) B), db',
        t + length (filter (\<lambda>p. String_id (prog_id p) \<notin> set known) B))
     \<and> get_programs db' = Inr (JObj a ps')
     \<and> (\<forall>k. k \<in> set known \<longrightarrow> map_of ps' k = map_of ps k)
     \<and> (\<forall>k. map_of ps k \<noteq> None \<longrightarrow> map_of ps' k \<noteq> None)
     \<and> (\<forall>p \<in> set B. String_id (prog_id p) \<notin> set known \<longrightarrow>
           String_id (prog_id p) \<noteq> ascii ''__proto__'' \<longrightarrow>
           map_of ps' (String_id (prog_id p)) \<noteq> None)"
proof (induction B arbitrary: db ps added t)
  case Nil
  then show ?case by auto
next
  case (Cons p B)
  show ?case
  proof (cases "String_id (prog_id p) \<in> set known")
    case True
    with Cons.IH [OF Cons.prems, of added t] show ?thesis by auto
  next
    case False
    let ?k = "String_id (prog_id p)"
    let ?ps1 = "if runs_proto_setter ps ?k then ps else AList.update ?k (persisted p (now t)) ps"
    from put_program_obj [OF Cons.prems, of ?k "persisted p (now t)"]
    obtain db1 where p1: "put_program db ?k (persisted p (now t)) = Inr db1"
      and g1: "get_programs db1 = Inr (JObj a ?ps1)"
      by blast
    from written_properties [of ?ps1 ps ?k "persisted p (now t)"]
    have w1: "\<forall>k'. k' \<noteq> ?k \<longrightarrow> map_of ?ps1 k' = map_of ps k'"
      and w2: "\<forall>k'. map_of ps k' \<noteq> None \<longrightarrow> map_of ?ps1 k' \<noteq> None"
      and w3: "?k \<noteq> ascii ''__proto__'' \<longrightarrow> map_of ?ps1 ?k \<noteq> None"
      by blast+
    from Cons.IH [OF g1, of "added @ [p]" "Suc t"] obtain db' ps' where
      r: "addPrograms_loop now known B db1 (added @ [p]) (Suc t) =
       (Inr ((added @ [p]) @ filter (\<lambda>p. String_id (prog_id p) \<notin> set known) B), db',
        Suc t + length (filter (\<lambda>p. String_id (prog_id p) \<notin> set known) B))"
      and g: "get_programs db' = Inr (JObj a ps')"
      and k: "\<forall>k. k \<in> set known \<longrightarrow> map_of ps' k = map_of ?ps1 k"
      and m: "\<forall>k. map_of ?ps1 k \<noteq> None \<longrightarrow> map_of ps' k \<noteq> None"
      and d: "\<forall>q \<in> set B. String_id (prog_id q) \<notin> set known \<longrightarrow>
           String_id (prog_id q) \<noteq> ascii ''__proto__'' \<longrightarrow>
           map_of ps' (String_id (prog_id q)) \<noteq> None"
      by blast
    have k': "\<forall>k. k \<in> set known \<longrightarrow> map_of ps' k = map_of ps k"
      using k w1 False by metis
    have m': "\<forall>k. map_of ps k \<noteq> None \<longrightarrow> map_of ps' k \<noteq> None"
      using m w2 by blast
    have d': "\<forall>q \<in> set (p # B). String_id (prog_id q) \<notin> set known \<longrightarrow>
           String_id (prog_id q) \<noteq> ascii ''__proto__'' \<longrightarrow>
           map_of ps' (String_id (prog_id q)) \<noteq> None"
      using d m w3 by auto
    have res: "addPrograms_loop now known (p # B) db added t =
       (Inr (added @ filter (\<lambda>p. String_id (prog_id p) \<notin> set known) (p # B)), db',
        t + length (filter (\<lambda>p. String_id (prog_id p) \<notin> set known) (p # B)))"
      using False p1 r by simp
    from res g k' m' d' show ?thesis by blast
  qed
qed

lemma addPrograms_loop_all_known:
  "\<forall>p \<in> set B. String_id (prog_id p) \<in> set known \<Longrightarrow>
   addPrograms_loop now known B db added t = (Inr added, db, t)"
  by (induction B) auto

lemma addPrograms_state:
  assumes "is_state S"
  shows "\<exists>S1. addPrograms now S B t =
           (Inr (filter (\<lambda>p. record_of S (String_id (prog_id p)) = None) B), S1,
            t + length (filter (\<lambda>p. record_of S (String_id (prog_id p)) = None) B))
         \<and> is_state S1
         \<and> (\<forall>k r. record_of S k = Some r \<longrightarrow> record_of S1 k = Some r)
         \<and> (\<forall>p \<in> set B. String_id (prog_id p) \<noteq> ascii ''__proto__'' \<longrightarrow>
               record_of S1 (String_id (prog_id p)) \<noteq> None)"
proof -
  from is_stateE [OF assms] obtain a ps where g: "get_programs S = Inr (JObj a ps)" by blast
  let ?known = "map fst ps"
  have unk: "(\<lambda>p. String_id (prog_id p) \<notin> set ?known) = (\<lambda>p. record_of S (String_id (prog_id p)) = None)"
    by (simp add: record_of_obj [OF g] map_of_eq_None_iff)
  from addPrograms_loop_obj [OF g, of now ?known B "[]" t] obtain S1 ps1 where
    r: "addPrograms_loop now ?known B S [] t =
       (Inr ([] @ filter (\<lambda>p. String_id (prog_id p) \<notin> set ?known) B), S1,
        t + length (filter (\<lambda>p. String_id (prog_id p) \<notin> set ?known) B))"
    and g1: "get_programs S1 = Inr (JObj a ps1)"
    and k: "\<forall>k. k \<in> set ?known \<longrightarrow> map_of ps1 k = map_of ps k"
    and m: "\<forall>k. map_of ps k \<noteq> None \<longrightarrow> map_of ps1 k \<noteq> None"
    and d: "\<forall>p \<in> set B. String_id (prog_id p) \<notin> set ?known \<longrightarrow>
           String_id (prog_id p) \<noteq> ascii ''__proto__'' \<longrightarrow>
           map_of ps1 (String_id (prog_id p)) \<noteq> None"
    by blast
  have 1: "addPrograms now S B t =
           (Inr (filter (\<lambda>p. record_of S (String_id (prog_id p)) = None) B), S1,
            t + length (filter (\<lambda>p. record_of S (String_id (prog_id p)) = None) B))"
    using r unfolding unk by (simp add: addPrograms_def getKnownIds_obj [OF g])
  have 2: "is_state S1" by (rule is_stateI [OF g1])
  have 3: "\<forall>k r. record_of S k = Some r \<longrightarrow> record_of S1 k = Some r"
  proof (intro allI impI)
    fix k r assume "record_of S k = Some r"
    then have m: "map_of ps k = Some r" by (simp add: record_of_obj [OF g])
    then have "k \<in> set ?known" by (metis map_of_eq_None_iff option.distinct(1) set_map)
    with k m show "record_of S1 k = Some r" by (simp add: record_of_obj [OF g1])
  qed
  have 4: "\<forall>p \<in> set B. String_id (prog_id p) \<noteq> ascii ''__proto__'' \<longrightarrow>
      record_of S1 (String_id (prog_id p)) \<noteq> None"
  proof (intro ballI impI)
    fix p assume p: "p \<in> set B" and n: "String_id (prog_id p) \<noteq> ascii ''__proto__''"
    show "record_of S1 (String_id (prog_id p)) \<noteq> None"
    proof (cases "String_id (prog_id p) \<in> set ?known")
      case True
      then have "map_of ps (String_id (prog_id p)) \<noteq> None"
        by (simp add: map_of_eq_None_iff)
      with m show ?thesis by (simp add: record_of_obj [OF g1])
    next
      case False
      with d p n show ?thesis by (simp add: record_of_obj [OF g1])
    qed
  qed
  from 1 2 3 4 show ?thesis by blast
qed

lemma addPrograms_all_known:
  assumes "is_state S" and "\<forall>p \<in> set B. record_of S (String_id (prog_id p)) \<noteq> None"
  shows "addPrograms now S B t = (Inr [], S, t)"
proof -
  from is_stateE [OF assms(1)] obtain a ps where g: "get_programs S = Inr (JObj a ps)" by blast
  have "\<forall>p \<in> set B. String_id (prog_id p) \<in> set (map fst ps)"
    using assms(2) by (simp add: record_of_obj [OF g] map_of_eq_None_iff)
  then show ?thesis
    by (simp add: addPrograms_def getKnownIds_obj [OF g] addPrograms_loop_all_known)
qed

lemma calls_keep:
  "is_state S \<Longrightarrow> record_of S k = Some r \<Longrightarrow>
   is_state (fst (calls now cs S t)) \<and> record_of (fst (calls now cs S t)) k = Some r"
proof (induction cs arbitrary: S t)
  case Nil
  then show ?case by simp
next
  case (Cons c cs)
  show ?case
  proof (cases c)
    case (Diff B)
    with Cons show ?thesis by simp
  next
    case (Add B)
    from addPrograms_state [OF Cons.prems(1), of now B t] obtain S1 r1 t1 where
      a: "addPrograms now S B t = (r1, S1, t1)" and s: "is_state S1"
      and k: "\<forall>k r. record_of S k = Some r \<longrightarrow> record_of S1 k = Some r" by blast
    from k Cons.prems(2) have "record_of S1 k = Some r" by blast
    from Cons.IH [OF s this, of t1] show ?thesis using Add a by simp
  qed
qed

lemma String_nat_small: "n < 10 \<Longrightarrow> String_nat n = [digit n]"
  by (simp add: String_nat.simps)

lemma String_nat_large: "10 \<le> n \<Longrightarrow> String_nat n = String_nat (n div 10) @ [digit (n mod 10)]"
  by (subst String_nat.simps) simp

lemma String_100: "String_int 100 = ascii ''100''"
  by (simp add: String_int_def String_nat_large String_nat_small digit_def ascii_def)

lemma empty_programs: "get_programs createEmptyDb = Inr (JObj False [])"
  by (simp add: createEmptyDb_def)

lemma known100_programs: "get_programs known100 = Inr (JObj False [(ascii ''100'', persisted acme (ascii ''2024-01-01T00:00:00.000Z''))])"
  by (simp add: known100_def)


text \<open>
  Claim C5. For a state \<open>S\<close> and a batch \<open>B\<close>, \<open>diffPrograms\<close> returns the elements
  of \<open>B\<close> whose id, as a string, is not a key of the \<open>programs\<close> mapping of \<open>S\<close>, in
  the order of \<open>B\<close>. So the diff against the empty state is \<open>B\<close>, the diff is empty
  when every id is a key, and the number 100 and the string 100 are the same id.
\<close>

theorem diffPrograms_selects_unknown:
  assumes "is_state S"
  shows "diffPrograms S B = Inr (filter (\<lambda>p. record_of S (String_id (prog_id p)) = None) B)
    \<and> diffPrograms createEmptyDb B = Inr B
    \<and> ((\<forall>p \<in> set B. record_of S (String_id (prog_id p)) \<noteq> None) \<longrightarrow> diffPrograms S B = Inr [])
    \<and> (record_of S (ascii ''100'') \<noteq> None \<longrightarrow>
         diffPrograms S [p\<lparr>prog_id := IdNum 100\<rparr>] = Inr [] \<and>
         diffPrograms S [p\<lparr>prog_id := IdStr (ascii ''100'')\<rparr>] = Inr [])"
proof -
  from is_stateE [OF assms] obtain a ps where g: "get_programs S = Inr (JObj a ps)" by blast
  have 1: "\<And>B. diffPrograms S B = Inr (filter (\<lambda>p. record_of S (String_id (prog_id p)) = None) B)"
    by (rule diffPrograms_obj [OF g])
  have 2: "diffPrograms createEmptyDb B = Inr B"
    by (simp add: diffPrograms_obj [OF empty_programs] record_of_obj [OF empty_programs])
  have 3: "(\<forall>p \<in> set B. record_of S (String_id (prog_id p)) \<noteq> None) \<longrightarrow> diffPrograms S B = Inr []"
    by (simp add: 1)
  have 4: "record_of S (ascii ''100'') \<noteq> None \<longrightarrow>
         diffPrograms S [p\<lparr>prog_id := IdNum 100\<rparr>] = Inr [] \<and>
         diffPrograms S [p\<lparr>prog_id := IdStr (ascii ''100'')\<rparr>] = Inr []"
    by (simp add: 1 String_100)
  from 1 2 3 4 show ?thesis by blast
qed

text \<open>The state that knows the id 100, and a batch holding the same id as a number.\<close>

theorem diffPrograms_selects_unknown_witness:
  "is_state known100
   \<and> record_of known100 (String_id (IdNum 100)) \<noteq> None
   \<and> diffPrograms known100 [acme\<lparr>prog_id := IdNum 100\<rparr>] = Inr []
   \<and> diffPrograms createEmptyDb [acme\<lparr>prog_id := IdNum 100\<rparr>] = Inr [acme\<lparr>prog_id := IdNum 100\<rparr>]"
proof -
  have s: "is_state known100" by (simp add: is_state_def known100_programs)
  have r: "record_of known100 (String_id (IdNum 100)) \<noteq> None"
    by (simp add: record_of_def known100_programs String_100)
  then have k: "\<forall>p \<in> set [acme\<lparr>prog_id := IdNum 100\<rparr>]. record_of known100 (String_id (prog_id p)) \<noteq> None"
    by simp
  from diffPrograms_selects_unknown [OF s, of "[acme\<lparr>prog_id := IdNum 100\<rparr>]" acme] s r k
  show ?thesis by blast
qed

text \<open>
  Claim C6. The mapping is append-only. After any sequence of \<open>diffPrograms\<close> and
  \<open>addPrograms\<close> calls, an id that was a key before the sequence is still a key, with
  the record it had (\<open>first_seen\<close> included), and \<open>diffPrograms\<close> returns no entity
  of that id as new, whatever the batches in between held.
\<close>

theorem persisted_records_are_kept:
  assumes "is_state S" and "record_of S k = Some r"
  shows "is_state (fst (calls now cs S t))
    \<and> record_of (fst (calls now cs S t)) k = Some r
    \<and> (\<exists>new. diffPrograms (fst (calls now cs S t)) B = Inr new
          \<and> (\<forall>p \<in> set new. String_id (prog_id p) \<noteq> k))"
proof -
  let ?S = "fst (calls now cs S t)"
  from calls_keep [OF assms] have s: "is_state ?S" and r: "record_of ?S k = Some r" by auto
  from is_stateE [OF s] obtain a ps where g: "get_programs ?S = Inr (JObj a ps)" by blast
  have "diffPrograms ?S B = Inr (filter (\<lambda>p. record_of ?S (String_id (prog_id p)) = None) B)"
    by (rule diffPrograms_obj [OF g])
  moreover have "\<forall>p \<in> set (filter (\<lambda>p. record_of ?S (String_id (prog_id p)) = None) B).
      String_id (prog_id p) \<noteq> k" using r by auto
  ultimately show ?thesis using s r by blast
qed

text \<open>The id 100 stays known across a diff, an insertion of the same id, and a diff.\<close>

theorem persisted_records_are_kept_witness:
  "is_state known100
   \<and> record_of known100 (ascii ''100'') = Some (persisted acme (ascii ''2024-01-01T00:00:00.000Z''))
   \<and> record_of (fst (calls sample_clock [Diff [acme_renamed], Add [acme_renamed], Diff []] known100 0))
        (ascii ''100'') = Some (persisted acme (ascii ''2024-01-01T00:00:00.000Z''))
   \<and> (\<exists>new. diffPrograms (fst (calls sample_clock [Diff [acme_renamed], Add [acme_renamed], Diff []] known100 0))
          [acme\<lparr>prog_id := IdNum 100\<rparr>] = Inr new
        \<and> (\<forall>p \<in> set new. String_id (prog_id p) \<noteq> ascii ''100''))"
proof -
  have s: "is_state known100" by (simp add: is_state_def known100_programs)
  have r: "record_of known100 (ascii ''100'') = Some (persisted acme (ascii ''2024-01-01T00:00:00.000Z''))"
    by (simp add: record_of_def known100_programs)
  from persisted_records_are_kept [OF s r, of sample_clock "[Diff [acme_renamed], Add [acme_renamed], Diff []]" 0 "[acme\<lparr>prog_id := IdNum 100\<rparr>]"] s r
  show ?thesis by blast
qed

text \<open>
  Two calls with the same batch, none of whose ids is \<open>__proto__\<close>: the first call
  returns the entities whose id was not a key, reads the clock once for each of them,
  and leaves every id of the batch a key, without touching the records that existed; the
  second call returns the empty list and changes neither the state nor the clock.
\<close>

lemma addPrograms_twice:
  assumes "is_state S"
    and "\<forall>p \<in> set B. String_id (prog_id p) \<noteq> ascii ''__proto__''"
  shows "\<exists>S1. addPrograms now S B t =
           (Inr (filter (\<lambda>p. record_of S (String_id (prog_id p)) = None) B), S1,
            t + length (filter (\<lambda>p. record_of S (String_id (prog_id p)) = None) B))
         \<and> (\<forall>k r. record_of S k = Some r \<longrightarrow> record_of S1 k = Some r)
         \<and> (\<forall>p \<in> set B. record_of S1 (String_id (prog_id p)) \<noteq> None)
         \<and> addPrograms now S1 B
              (t + length (filter (\<lambda>p. record_of S (String_id (prog_id p)) = None) B)) =
             (Inr [], S1, t + length (filter (\<lambda>p. record_of S (String_id (prog_id p)) = None) B))"
proof -
  from addPrograms_state [OF assms(1), of now B t] obtain S1 where
    1: "addPrograms now S B t =
           (Inr (filter (\<lambda>p. record_of S (String_id (prog_id p)) = None) B), S1,
            t + length (filter (\<lambda>p. record_of S (String_id (prog_id p)) = None) B))"
    and 2: "is_state S1"
    and 3: "\<forall>k r. record_of S k = Some r \<longrightarrow> record_of S1 k = Some r"
    and 4: "\<forall>p \<in> set B. String_id (prog_id p) \<noteq> ascii ''__proto__'' \<longrightarrow>
        record_of S1 (String_id (prog_id p)) \<noteq> None" by blast
  from 4 assms(2) have 5: "\<forall>p \<in> set B. record_of S1 (String_id (prog_id p)) \<noteq> None" by blast
  from addPrograms_all_known [OF 2 5] 1 3 5 show ?thesis by blast
qed

text \<open>
  Claim C7. \<open>addPrograms\<close> is to be idempotent: a second call with the same batch
  returns the empty list. The code is not, for a program whose id is \<open>__proto__\<close>:
  the write \<open>db.programs['__proto__'] = record\<close> replaces the prototype and creates no
  key, so the first call on the empty state returns the program and leaves the state
  without a key, the second call returns the program again and reads the clock again, and
  \<open>diffPrograms\<close> still reports the program as new.
\<close>

theorem addPrograms_proto_id_added_twice:
  "String_id (prog_id proto_program) = ascii ''__proto__''
   \<and> addPrograms sample_clock createEmptyDb [proto_program] 0 =
       (Inr [proto_program], createEmptyDb, 1)
   \<and> addPrograms sample_clock createEmptyDb [proto_program] 1 =
       (Inr [proto_program], createEmptyDb, 2)
   \<and> diffPrograms createEmptyDb [proto_program] = Inr [proto_program]"
proof -
  have i: "String_id (prog_id proto_program) = ascii ''__proto__''"
    by (simp add: proto_program_def)
  have a: "\<And>t. addPrograms sample_clock createEmptyDb [proto_program] t =
      (Inr [proto_program], createEmptyDb, Suc t)"
    by (simp add: addPrograms_def getKnownIds_def createEmptyDb_def put_program_def
        runs_proto_setter_def i)
  have d: "diffPrograms createEmptyDb [proto_program] = Inr [proto_program]"
    by (simp add: diffPrograms_def getKnownIds_def createEmptyDb_def i)
  from i a [of 0] a [of 1] d show ?thesis by simp
qed



section \<open>Properties of load\<close>

lemma load_returns: "\<exists>v. load fs path = Inr v"
  by (simp add: load_def split: sum.splits)

lemma load_absent: "fs path = None \<Longrightarrow> load fs path = Inr createEmptyDb"
  by (simp add: load_def load_try_def)

lemma load_thrown:
  "fs path = Some Directory \<or> fs path = Some (Unreadable e) \<or> fs path = Some (Unparseable e)
   \<Longrightarrow> load fs path = Inr createEmptyDb"
  by (auto simp: load_def load_try_def)

lemma load_invalid:
  assumes "fs path = Some (Json data)"
    and "falsy data \<or> (\<exists>v. get_programs data = Inr v \<and> (\<not> typeof_object v \<or> v = JNull))"
  shows "load fs path = Inr createEmptyDb"
  using assms by (auto simp: load_def load_try_def split: sum.splits)

lemma load_object:
  assumes "fs path = Some (Json data)" and "get_programs data = Inr (JObj a ps)"
  shows "load fs path = Inr data"
proof -
  from assms(2) have "\<not> falsy data" by (cases data) auto
  with assms show ?thesis by (simp add: load_def load_try_def)
qed

text \<open>
  Claim C4, as the code has it. \<open>load\<close> never throws. It returns the empty state when
  the file is absent, when reading or parsing it throws, when the parsed value is falsy,
  and when the \<open>programs\<close> field of the parsed value is missing, is \<open>null\<close>, or has a
  \<open>typeof\<close> other than \<open>object\<close>. A parsed value whose \<open>programs\<close> field is an
  object is returned as it is, and an array is such an object.
\<close>

theorem load_recovers:
  "(\<exists>v. load fs path = Inr v)
   \<and> (fs path = None \<longrightarrow> load fs path = Inr createEmptyDb)
   \<and> (\<forall>e. fs path = Some Directory \<or> fs path = Some (Unreadable e)
          \<or> fs path = Some (Unparseable e) \<longrightarrow> load fs path = Inr createEmptyDb)
   \<and> (\<forall>data. fs path = Some (Json data) \<longrightarrow>
         falsy data \<or> (\<exists>v. get_programs data = Inr v \<and> (\<not> typeof_object v \<or> v = JNull)) \<longrightarrow>
         load fs path = Inr createEmptyDb)
   \<and> (\<forall>data a ps. fs path = Some (Json data) \<longrightarrow> get_programs data = Inr (JObj a ps) \<longrightarrow>
         load fs path = Inr data)"
  using load_returns [of fs path] load_absent [of fs path] load_thrown [of fs path]
    load_invalid [of fs path] load_object [of fs path]
  by blast

text \<open>The file of the test for an invalid structure, a valid file, and no file.\<close>

theorem load_recovers_witness:
  "load (\<lambda>p. if p = db_json then Some (Json foo_bar) else None) db_json = Inr createEmptyDb
   \<and> load (\<lambda>p. if p = db_json then Some (Json known100) else None) db_json = Inr known100
   \<and> load (\<lambda>p. None) db_json = Inr createEmptyDb"
proof -
  let ?invalid = "\<lambda>p. if p = db_json then Some (Json foo_bar) else None"
  let ?valid = "\<lambda>p. if p = db_json then Some (Json known100) else None"
  have f1: "?invalid db_json = Some (Json foo_bar)" by simp
  have g1: "get_programs foo_bar = Inr JUndefined"
    by (simp add: foo_bar_def ascii_def)
  have t1: "\<not> typeof_object JUndefined" by simp
  have f2: "?valid db_json = Some (Json known100)" by simp
  have f3: "(\<lambda>p. None :: file_entry option) db_json = None" by simp
  from load_recovers [of ?invalid db_json] f1 g1 t1
  have 1: "load ?invalid db_json = Inr createEmptyDb" by blast
  from load_recovers [of ?valid db_json] f2 known100_programs
  have 2: "load ?valid db_json = Inr known100" by blast
  from load_recovers [of "\<lambda>p. None" db_json] f3
  have 3: "load (\<lambda>p. None) db_json = Inr createEmptyDb" by blast
  from 1 2 3 show ?thesis by blast
qed

text \<open>
  Claim C4 as stated fails on the file \<open>{"programs": []}\<close>: an array is not a mapping
  of ids, but \<open>load\<close> returns the parsed value and not the empty state.
\<close>

theorem load_keeps_array_programs:
  "get_programs array_programs = Inr (JObj True [])
   \<and> load (\<lambda>p. if p = db_json then Some (Json array_programs) else None) db_json = Inr array_programs
   \<and> array_programs \<noteq> createEmptyDb"
  by (simp add: array_programs_def load_def load_try_def createEmptyDb_def)

section \<open>Properties of src/h1-client.js\<close>

lemma http_error_name: "err_name (http_error r) = ascii ''Error''"
  by (simp add: http_error_def Error_def)

lemma retry_on_status:
  assumes "fetchFn tr req = Responded r" and "status r = 429 \<or> 500 \<le> status r"
    and "attempt \<le> 3"
  shows "fetchWithRetry fetchFn req attempt tr =
         fetchWithRetry fetchFn req (Suc attempt)
           (tr @ [Fetch req, Sleep (1000 * 2 ^ (attempt - 1))])"
  using assms by (subst fetchWithRetry.simps) (simp add: MAX_RETRIES_def BASE_DELAY_MS_def)

lemma give_up_on_status:
  assumes "fetchFn tr req = Responded r" and "status r = 429 \<or> 500 \<le> status r"
    and "3 < attempt"
  shows "fetchWithRetry fetchFn req attempt tr = (Inl (http_error r), tr @ [Fetch req])"
  using assms
  by (subst fetchWithRetry.simps) (auto simp: MAX_RETRIES_def ok_def http_error_name)

lemma fatal_status:
  assumes "fetchFn tr req = Responded r" and "\<not> ok r" and "status r \<noteq> 429" and "status r < 500"
  shows "fetchWithRetry fetchFn req attempt tr = (Inl (http_error r), tr @ [Fetch req])"
  using assms
  by (subst fetchWithRetry.simps) (auto simp: http_error_name)

lemma retry_on_throw:
  assumes "fetchFn tr req = Threw e" and "err_name e \<noteq> ascii ''Error''" and "attempt \<le> 3"
  shows "fetchWithRetry fetchFn req attempt tr =
         fetchWithRetry fetchFn req (Suc attempt)
           (tr @ [Fetch req, Sleep (1000 * 2 ^ (attempt - 1))])"
  using assms by (subst fetchWithRetry.simps) (simp add: MAX_RETRIES_def BASE_DELAY_MS_def)

lemma give_up_on_throw:
  assumes "fetchFn tr req = Threw e" and "3 < attempt \<or> err_name e = ascii ''Error''"
  shows "fetchWithRetry fetchFn req attempt tr = (Inl e, tr @ [Fetch req])"
  using assms
  by (subst fetchWithRetry.simps) (auto simp: MAX_RETRIES_def)

text \<open>
  Claim C1, as the code has it. When every answer is 429 or a 5xx status,
  \<open>fetchWithRetry\<close> calls \<open>fetchFn\<close> four times, the first attempt and
  \<open>MAX_RETRIES = 3\<close> retries, sleeps 1000, 2000 and 4000 milliseconds between them, and
  then throws the error made from the last response.
\<close>

theorem fetchWithRetry_status_exhausts_retries:
  assumes "\<forall>tr. \<exists>r. fetchFn tr req = Responded r \<and> (status r = 429 \<or> 500 \<le> status r)"
  shows "\<exists>r. fetchFn (tr @ [Fetch req, Sleep 1000, Fetch req, Sleep 2000, Fetch req, Sleep 4000]) req
              = Responded r
       \<and> fetchWithRetry fetchFn req 1 tr =
           (Inl (http_error r),
            tr @ [Fetch req, Sleep 1000, Fetch req, Sleep 2000, Fetch req, Sleep 4000, Fetch req])"
proof -
  let ?t1 = "tr @ [Fetch req, Sleep 1000]"
  let ?t2 = "?t1 @ [Fetch req, Sleep 2000]"
  let ?t3 = "?t2 @ [Fetch req, Sleep 4000]"
  from assms obtain r0 where r0: "fetchFn tr req = Responded r0" "status r0 = 429 \<or> 500 \<le> status r0"
    by blast
  from assms obtain r1 where r1: "fetchFn ?t1 req = Responded r1" "status r1 = 429 \<or> 500 \<le> status r1"
    by blast
  from assms obtain r2 where r2: "fetchFn ?t2 req = Responded r2" "status r2 = 429 \<or> 500 \<le> status r2"
    by blast
  from assms obtain r3 where r3: "fetchFn ?t3 req = Responded r3" "status r3 = 429 \<or> 500 \<le> status r3"
    by blast
  have "fetchWithRetry fetchFn req 1 tr = fetchWithRetry fetchFn req 2 ?t1"
    using retry_on_status [of fetchFn tr req r0 1] r0 by (simp add: numeral_2_eq_2)
  also have "\<dots> = fetchWithRetry fetchFn req 3 ?t2"
    using retry_on_status [of fetchFn ?t1 req r1 2] r1 by (simp add: numeral_3_eq_3 numeral_2_eq_2)
  also have "\<dots> = fetchWithRetry fetchFn req 4 ?t3"
    using retry_on_status [of fetchFn ?t2 req r2 3] r2 by (simp add: eval_nat_numeral)
  also have "\<dots> = (Inl (http_error r3), ?t3 @ [Fetch req])"
    using give_up_on_status [of fetchFn ?t3 req r3 4] r3 by simp
  finally show ?thesis using r3(1) by simp
qed

text \<open>An endpoint that always answers 429.\<close>

theorem fetchWithRetry_status_exhausts_retries_witness:
  "fetchWithRetry always_429 () 1 [] =
     (Inl (http_error \<lparr>status = 429, statusText = ascii ''Too Many Requests''\<rparr>),
      [Fetch (), Sleep 1000, Fetch (), Sleep 2000, Fetch (), Sleep 4000, Fetch ()])"
proof -
  have h: "\<forall>tr. \<exists>r. always_429 tr () = Responded r \<and> (status r = 429 \<or> 500 \<le> status r)"
    by (simp add: always_429_def)
  from fetchWithRetry_status_exhausts_retries [of always_429 "()" "[]"] h show ?thesis
    by (simp add: always_429_def)
qed

lemma always_503_run:
  "fetchWithRetry always_503 () 1 [] =
     (Inl (http_error \<lparr>status = 503, statusText = ascii ''Service Unavailable''\<rparr>),
      [Fetch (), Sleep 1000, Fetch (), Sleep 2000, Fetch (), Sleep 4000, Fetch ()])"
proof -
  have s: "\<And>tr. always_503 tr () = Responded \<lparr>status = 503, statusText = ascii ''Service Unavailable''\<rparr>"
    by (simp add: always_503_def)
  have "fetchWithRetry always_503 () 1 [] = fetchWithRetry always_503 () 2 [Fetch (), Sleep 1000]"
    using retry_on_status [of always_503 "[]" "()" "\<lparr>status = 503, statusText = ascii ''Service Unavailable''\<rparr>" 1] s by (simp add: numeral_2_eq_2)
  also have "\<dots> = fetchWithRetry always_503 () 3 [Fetch (), Sleep 1000, Fetch (), Sleep 2000]"
    using retry_on_status [of always_503 "[Fetch (), Sleep 1000]" "()" "\<lparr>status = 503, statusText = ascii ''Service Unavailable''\<rparr>" 2] s
    by (simp add: eval_nat_numeral)
  also have "\<dots> = fetchWithRetry always_503 () 4
      [Fetch (), Sleep 1000, Fetch (), Sleep 2000, Fetch (), Sleep 4000]"
    using retry_on_status [of always_503 "[Fetch (), Sleep 1000, Fetch (), Sleep 2000]" "()" "\<lparr>status = 503, statusText = ascii ''Service Unavailable''\<rparr>" 3] s
    by (simp add: eval_nat_numeral)
  also have "\<dots> = (Inl (http_error \<lparr>status = 503, statusText = ascii ''Service Unavailable''\<rparr>),
      [Fetch (), Sleep 1000, Fetch (), Sleep 2000, Fetch (), Sleep 4000, Fetch ()])"
    using give_up_on_status [of always_503 "[Fetch (), Sleep 1000, Fetch (), Sleep 2000, Fetch (), Sleep 4000]" "()" "\<lparr>status = 503, statusText = ascii ''Service Unavailable''\<rparr>" 4] s
    by simp
  finally show ?thesis .
qed

text \<open>
  Claim C1 as stated, exactly three attempts, fails on the endpoint that always answers
  503: the trace holds four calls.
\<close>

theorem fetchWithRetry_503_four_attempts:
  "snd (fetchWithRetry always_503 () 1 []) =
     [Fetch (), Sleep 1000, Fetch (), Sleep 2000, Fetch (), Sleep 4000, Fetch ()]
   \<and> length (filter is_fetch (snd (fetchWithRetry always_503 () 1 []))) = 4
   \<and> length (filter is_fetch (snd (fetchWithRetry always_503 () 1 []))) \<noteq> 3"
  unfolding always_503_run by simp

text \<open>
  Claim C3, as the code has it. An error thrown by \<open>fetchFn\<close> whose name is not
  \<open>Error\<close> is retried like a 429 or 5xx answer, with the same three retries and the
  same delays, and the last error is thrown when they are used up. An error whose name is
  \<open>Error\<close> is thrown on at once, at any attempt, without a sleep.
\<close>

theorem fetchWithRetry_throw_exhausts_retries:
  "((\<forall>tr. \<exists>e. fetchFn tr req = Threw e \<and> err_name e \<noteq> ascii ''Error'') \<longrightarrow>
      (\<exists>e. fetchFn (tr @ [Fetch req, Sleep 1000, Fetch req, Sleep 2000, Fetch req, Sleep 4000]) req
              = Threw e
       \<and> fetchWithRetry fetchFn req 1 tr =
           (Inl e,
            tr @ [Fetch req, Sleep 1000, Fetch req, Sleep 2000, Fetch req, Sleep 4000, Fetch req])))
   \<and> (\<forall>e. fetchFn tr req = Threw e \<and> err_name e = ascii ''Error'' \<longrightarrow>
         fetchWithRetry fetchFn req attempt tr = (Inl e, tr @ [Fetch req]))"
proof (intro conjI impI allI)
  assume a: "\<forall>tr. \<exists>e. fetchFn tr req = Threw e \<and> err_name e \<noteq> ascii ''Error''"
  let ?t1 = "tr @ [Fetch req, Sleep 1000]"
  let ?t2 = "?t1 @ [Fetch req, Sleep 2000]"
  let ?t3 = "?t2 @ [Fetch req, Sleep 4000]"
  from a obtain e0 where e0: "fetchFn tr req = Threw e0" "err_name e0 \<noteq> ascii ''Error''" by blast
  from a obtain e1 where e1: "fetchFn ?t1 req = Threw e1" "err_name e1 \<noteq> ascii ''Error''" by blast
  from a obtain e2 where e2: "fetchFn ?t2 req = Threw e2" "err_name e2 \<noteq> ascii ''Error''" by blast
  from a obtain e3 where e3: "fetchFn ?t3 req = Threw e3" "err_name e3 \<noteq> ascii ''Error''" by blast
  have "fetchWithRetry fetchFn req 1 tr = fetchWithRetry fetchFn req 2 ?t1"
    using retry_on_throw [of fetchFn tr req e0 1] e0 by (simp add: numeral_2_eq_2)
  also have "\<dots> = fetchWithRetry fetchFn req 3 ?t2"
    using retry_on_throw [of fetchFn ?t1 req e1 2] e1 by (simp add: eval_nat_numeral)
  also have "\<dots> = fetchWithRetry fetchFn req 4 ?t3"
    using retry_on_throw [of fetchFn ?t2 req e2 3] e2 by (simp add: eval_nat_numeral)
  also have "\<dots> = (Inl e3, ?t3 @ [Fetch req])"
    using give_up_on_throw [of fetchFn ?t3 req e3 4] e3 by simp
  finally show "\<exists>e. fetchFn (tr @ [Fetch req, Sleep 1000, Fetch req, Sleep 2000, Fetch req, Sleep 4000]) req
              = Threw e
       \<and> fetchWithRetry fetchFn req 1 tr =
           (Inl e,
            tr @ [Fetch req, Sleep 1000, Fetch req, Sleep 2000, Fetch req, Sleep 4000, Fetch req])"
    using e3(1) by simp
next
  fix e assume "fetchFn tr req = Threw e \<and> err_name e = ascii ''Error''"
  then show "fetchWithRetry fetchFn req attempt tr = (Inl e, tr @ [Fetch req])"
    using give_up_on_throw [of fetchFn tr req e attempt] by blast
qed

text \<open>The \<open>TypeError\<close> of a failed fetch, thrown at every attempt.\<close>

theorem fetchWithRetry_throw_exhausts_retries_witness:
  "fetchWithRetry always_fetch_failed () 1 [] =
     (Inl (TypeError (ascii ''fetch failed'')),
      [Fetch (), Sleep 1000, Fetch (), Sleep 2000, Fetch (), Sleep 4000, Fetch ()])"
proof -
  have n: "ascii ''TypeError'' \<noteq> ascii ''Error''" by (simp add: ascii_def)
  have h: "\<forall>tr. \<exists>e. always_fetch_failed tr () = Threw e \<and> err_name e \<noteq> ascii ''Error''"
    using n by (simp add: always_fetch_failed_def TypeError_def)
  from fetchWithRetry_throw_exhausts_retries [of always_fetch_failed "()" "[]"] h show ?thesis
    by (simp add: always_fetch_failed_def)
qed

text \<open>
  Claim C3 as stated fails on a connection failure that is thrown as a plain \<open>Error\<close>:
  one call, no retry, where the endpoint that always answers 503 gets four calls.
\<close>

theorem fetchWithRetry_error_named_Error_not_retried:
  "fetchWithRetry always_refused () 1 [] =
     (Inl (Error (ascii ''connect ECONNREFUSED'')), [Fetch ()])
   \<and> length (filter is_fetch (snd (fetchWithRetry always_refused () 1 []))) = 1
   \<and> length (filter is_fetch (snd (fetchWithRetry always_503 () 1 []))) = 4"
proof -
  have "fetchWithRetry always_refused () 1 [] =
     (Inl (Error (ascii ''connect ECONNREFUSED'')), [] @ [Fetch ()])"
    by (rule give_up_on_throw) (simp_all add: always_refused_def Error_def)
  then show ?thesis unfolding always_503_run by simp
qed


section \<open>Properties of src/watcher.js\<close>

lemma diffPrograms_object:
  "diffPrograms state current = Inr new \<Longrightarrow> \<exists>b props. state = JObj b props"
  by (cases state) (auto simp: diffPrograms_def getKnownIds_def split: sum.splits)

lemma last_run_not_programs: "ascii ''last_run'' \<noteq> ascii ''programs''"
  by (simp add: ascii_def)

lemma get_programs_last_run:
  "get_programs (JObj b (AList.update (ascii ''last_run'') v props)) = get_programs (JObj b props)"
  using last_run_not_programs by (simp add: update_conv')

lemma save_object:
  assumes "mkdir_error sys (dirname sys path) = None" and "writeFile_error sys path = None"
  shows "save sys (JObj b props) path w =
     (Inr (), JObj b (AList.update (ascii ''last_run'') (JStr (clock sys (ticks w))) props),
      w\<lparr>files := (if files w (dirname sys path) = None
                     then (files w)(dirname sys path := Some Directory) else files w)
                   (path := Some (Json (JObj b (AList.update (ascii ''last_run'')
                                    (JStr (clock sys (ticks w))) props)))),
        ticks := Suc (ticks w)\<rparr>)"
  using assms last_run_not_proto by (simp add: save_def Let_def runs_proto_setter_def)

text \<open>
  Claim C9. On a run whose diff is empty, and whose \<open>mkdir\<close> and \<open>writeFile\<close> do
  not fail, the notifier and the side dispatch are not called, the document written to
  the state file is the loaded state with \<open>last_run\<close> set to the current time and the
  \<open>programs\<close> mapping as loaded, and the run returns an empty list of new programs.
\<close>

theorem run_with_empty_diff:
  assumes "load (files w) (dbPath d) = Inr state"
    and "fetchPrograms d = Inr current"
    and "diffPrograms state current = Inr []"
    and "mkdir_error sys (dirname sys (dbPath d)) = None"
    and "writeFile_error sys (dbPath d) = None"
  shows "fst (run sys d w) = Inr \<lparr>newPrograms = [], totalPrograms = length current\<rparr>
    \<and> effects (snd (run sys d w)) = effects w
    \<and> ticks (snd (run sys d w)) = Suc (ticks w)
    \<and> (\<exists>b props saved. state = JObj b props
          \<and> saved = JObj b (AList.update (ascii ''last_run'') (JStr (clock sys (ticks w))) props)
          \<and> files (snd (run sys d w)) (dbPath d) = Some (Json saved)
          \<and> get_programs saved = get_programs state)"
proof -
  from diffPrograms_object [OF assms(3)] obtain b props where st: "state = JObj b props" by blast
  let ?saved = "JObj b (AList.update (ascii ''last_run'') (JStr (clock sys (ticks w))) props)"
  have r: "run sys d w =
      save_and_return sys state (dbPath d)
        \<lparr>newPrograms = [], totalPrograms = length current\<rparr> w"
    using assms(1,2,3) by (simp add: run_def)
  have s: "save sys (JObj b props) (dbPath d) w =
     (Inr (), ?saved,
      w\<lparr>files := (if files w (dirname sys (dbPath d)) = None
                     then (files w)(dirname sys (dbPath d) := Some Directory) else files w)
                   (dbPath d := Some (Json ?saved)),
        ticks := Suc (ticks w)\<rparr>)"
    by (rule save_object [OF assms(4,5)])
  have g: "get_programs ?saved = get_programs (JObj b props)"
    by (rule get_programs_last_run)
  have 1: "fst (run sys d w) = Inr \<lparr>newPrograms = [], totalPrograms = length current\<rparr>"
    by (simp add: r st save_and_return_def s)
  have 2: "effects (snd (run sys d w)) = effects w"
    by (simp add: r st save_and_return_def s)
  have 3: "ticks (snd (run sys d w)) = Suc (ticks w)"
    by (simp add: r st save_and_return_def s)
  have 4: "files (snd (run sys d w)) (dbPath d) = Some (Json ?saved)"
    by (simp add: r st save_and_return_def s)
  from 1 2 3 4 g st show ?thesis by blast
qed

text \<open>A state file that knows the id 100 and a fetch that returns only that program.\<close>

theorem run_with_empty_diff_witness:
  "fst (run sample_system sample_deps sample_world) = Inr \<lparr>newPrograms = [], totalPrograms = 1\<rparr>
   \<and> effects (snd (run sample_system sample_deps sample_world)) = []
   \<and> ticks (snd (run sample_system sample_deps sample_world)) = 1"
proof -
  have g: "get_programs known100 = Inr (JObj False [(ascii ''100'', persisted acme (ascii ''2024-01-01T00:00:00.000Z''))])"
    by (simp add: known100_def)
  have 1: "load (files sample_world) (dbPath sample_deps) = Inr known100"
    using load_object [of "files sample_world" db_json known100, OF _ g]
    by (simp add: sample_world_def sample_deps_def)
  have 2: "fetchPrograms sample_deps = Inr [acme]" by (simp add: sample_deps_def)
  have 3: "diffPrograms known100 [acme] = Inr []"
    by (simp add: diffPrograms_obj [OF g] record_of_obj [OF g] acme_def)
  have 4: "mkdir_error sample_system (dirname sample_system (dbPath sample_deps)) = None"
    by (simp add: sample_system_def)
  have 5: "writeFile_error sample_system (dbPath sample_deps) = None"
    by (simp add: sample_system_def)
  from run_with_empty_diff [OF 1 2 3 4 5] show ?thesis
    by (simp add: sample_world_def)
qed


section \<open>Properties of src/alerter.js\<close>

lemma join_snoc: "cur \<noteq> [] \<Longrightarrow> join sep (cur @ [e]) = join sep cur @ sep @ e"
  by (induction sep cur rule: join.induct) auto

lemma chunk_step_inv:
  assumes "chunk_inv headerPrefix n maxLength (Suc r) st"
    and "fits headerPrefix n maxLength entry"
  shows "chunk_inv headerPrefix n maxLength r (chunk_step headerPrefix n maxLength st entry)"
proof -
  obtain chunks cur len where st: "st = (chunks, cur, len)" by (cases st) auto
  from assms(1) have a: "\<forall>c \<in> set chunks. length c \<le> maxLength"
    and b: "len = length (join (nl @ nl) cur)"
    and c: "cur \<noteq> [] \<longrightarrow> length (header headerPrefix n (length chunks + 1)) + 2 + len \<le> maxLength"
    and d: "length chunks + Suc r + (if cur = [] then 0 else 1) \<le> n"
    by (auto simp: chunk_inv_def st)
  have fit: "\<And>k. 1 \<le> k \<Longrightarrow> k \<le> n \<Longrightarrow> length (header headerPrefix n k) + 2 + length entry \<le> maxLength"
    using assms(2) by (simp add: fits_def)
  show ?thesis
  proof (cases "cur = []")
    case True
    with b have l0: "len = 0" by simp
    from d True have "length chunks + 1 \<le> n" by simp
    from fit [OF _ this] have "length (header headerPrefix n (length chunks + 1)) + 2 + length entry \<le> maxLength"
      by simp
    with a d True l0 show ?thesis
      by (simp add: chunk_inv_def chunk_step_def st Let_def)
  next
    case False
    let ?projected = "length (header headerPrefix n (length chunks + 1) @ nl @ nl) + len + 2 + length entry"
    show ?thesis
    proof (cases "?projected > maxLength")
      case True
      from d False have "length chunks + 2 \<le> n" by simp
      from fit [OF _ this] have f: "length (header headerPrefix n (length chunks + 2)) + 2 + length entry \<le> maxLength"
        by simp
      from c False b have new: "length (header headerPrefix n (length chunks + 1) @ nl @ nl @ join (nl @ nl) cur) \<le> maxLength"
        by (simp add: nl_def)
      from True False have step: "chunk_step headerPrefix n maxLength st entry =
          (chunks @ [header headerPrefix n (length chunks + 1) @ nl @ nl @ join (nl @ nl) cur],
           [entry], length entry)"
        by (simp add: chunk_step_def st Let_def)
      show ?thesis unfolding step using a new f d False
        by (simp add: chunk_inv_def)
    next
      case notover: False
      from notover False have step: "chunk_step headerPrefix n maxLength st entry =
          (chunks, cur @ [entry], len + 2 + length entry)"
        by (simp add: chunk_step_def st Let_def)
      have j: "length (join (nl @ nl) (cur @ [entry])) = len + 2 + length entry"
        using False b by (simp add: join_snoc nl_def)
      from notover have "length (header headerPrefix n (length chunks + 1)) + 2 + (len + 2 + length entry) \<le> maxLength"
        by (simp add: nl_def)
      then show ?thesis unfolding step using a j d False
        by (simp add: chunk_inv_def)
    qed
  qed
qed

lemma chunk_loop_inv:
  "chunk_inv headerPrefix n maxLength (length entries) st \<Longrightarrow>
   \<forall>e \<in> set entries. fits headerPrefix n maxLength e \<Longrightarrow>
   chunk_inv headerPrefix n maxLength 0 (chunk_loop headerPrefix n maxLength entries st)"
proof (induction entries arbitrary: st)
  case Nil
  then show ?case by simp
next
  case (Cons e entries)
  from Cons.prems have "chunk_inv headerPrefix n maxLength (length entries)
      (chunk_step headerPrefix n maxLength st e)"
    by (simp add: chunk_step_inv)
  from Cons.IH [OF this] Cons.prems(2) show ?case by simp
qed

lemma chunk_step_cases:
  "chunk_step headerPrefix n maxLength (chunks, cur, len) entry =
     (chunks @ [header headerPrefix n (length chunks + 1) @ nl @ nl @ join (nl @ nl) cur],
      [entry], length entry)
   \<or> chunk_step headerPrefix n maxLength (chunks, cur, len) entry =
     (chunks, cur @ [entry], len + (if cur \<noteq> [] then 2 else 0) + length entry)"
  unfolding chunk_step_def Let_def prod.case
  apply (rule if_split [THEN iffD2])
  apply simp
  done

lemma chunk_step_current:
  "fst (snd (chunk_step headerPrefix n maxLength st entry)) \<noteq> []"
proof -
  obtain chunks cur len where st: "st = (chunks, cur, len)" by (cases st) auto
  from chunk_step_cases [of headerPrefix n maxLength chunks cur len entry]
  show ?thesis unfolding st by auto
qed

lemma chunk_loop_current:
  "entries \<noteq> [] \<or> fst (snd st) \<noteq> [] \<Longrightarrow>
   fst (snd (chunk_loop headerPrefix n maxLength entries st)) \<noteq> []"
proof (induction entries arbitrary: st)
  case Nil
  then show ?case by simp
next
  case (Cons e entries)
  show ?case using Cons.IH [of "chunk_step headerPrefix n maxLength st e"]
    by (simp add: chunk_step_current)
qed

lemma chunkMessages_not_empty:
  "programs \<noteq> [] \<Longrightarrow> chunkMessages programs entryFormatter headerPrefix maxLength \<noteq> []"
proof -
  assume ne: "programs \<noteq> []"
  obtain chunks cur len where l: "chunk_loop headerPrefix (length programs) maxLength
      (map entryFormatter programs) ([], [], 0) = (chunks, cur, len)"
    by (metis prod_cases3)
  from chunk_loop_current [of "map entryFormatter programs" "([], [], 0)" headerPrefix "length programs" maxLength] ne
  have "cur \<noteq> []" by (simp add: l)
  with ne l show ?thesis by (simp add: chunkMessages_def Let_def)
qed

text \<open>
  Claim C2, as the code has it. The first entry of a chunk is taken without a check, so
  an entry has to fit together with the header of its part: when every rendered entry,
  with the header of any part from 1 to the number of programs and the blank line after
  the header, is within \<open>maxLength\<close>, every string returned by \<open>chunkMessages\<close> is
  within \<open>maxLength\<close>.
\<close>

theorem chunkMessages_within_limit:
  assumes "\<forall>p \<in> set programs. \<forall>k \<in> {1..length programs}.
      length (header headerPrefix (length programs) k) + 2 + length (entryFormatter p) \<le> maxLength"
  shows "\<forall>c \<in> set (chunkMessages programs entryFormatter headerPrefix maxLength).
      length c \<le> maxLength"
proof (cases "programs = []")
  case True
  then show ?thesis by (simp add: chunkMessages_def)
next
  case False
  let ?n = "length programs"
  let ?entries = "map entryFormatter programs"
  let ?single = "singleHeader headerPrefix ?n @ nl @ nl @ join (nl @ nl) ?entries"
  show ?thesis
  proof (cases "length ?single \<le> maxLength")
    case True
    with False show ?thesis by (simp add: chunkMessages_def Let_def)
  next
    case over: False
    obtain chunks cur len where l: "chunk_loop headerPrefix ?n maxLength ?entries ([], [], 0)
        = (chunks, cur, len)"
      by (metis prod_cases3)
    have i0: "chunk_inv headerPrefix ?n maxLength (length ?entries) ([], [], 0)"
      by (simp add: chunk_inv_def)
    have f: "\<forall>e \<in> set ?entries. fits headerPrefix ?n maxLength e"
      using assms by (simp add: fits_def)
    from chunk_loop_inv [OF i0 f] have inv: "chunk_inv headerPrefix ?n maxLength 0 (chunks, cur, len)"
      by (simp add: l)
    then have a: "\<forall>c \<in> set chunks. length c \<le> maxLength"
      and b: "len = length (join (nl @ nl) cur)"
      and c: "cur \<noteq> [] \<longrightarrow> length (header headerPrefix ?n (length chunks + 1)) + 2 + len \<le> maxLength"
      by (auto simp: chunk_inv_def)
    have res: "chunkMessages programs entryFormatter headerPrefix maxLength =
        (if cur \<noteq> [] then chunks @ [header headerPrefix ?n (length chunks + 1) @ nl @ nl
                                       @ join (nl @ nl) cur]
         else chunks)"
      using False over l by (simp add: chunkMessages_def Let_def)
    show ?thesis unfolding res using a b c by (auto simp: nl_def)
  qed
qed

lemma length_ascii: "length (ascii s) = length s"
  by (simp add: ascii_def)

lemma length_header_small:
  "n < 10 \<Longrightarrow> k < 10 \<Longrightarrow> length (header headerPrefix n k) = length headerPrefix + 30"
  by (simp add: header_def String_nat_small length_ascii bell_def em_dash_def)

lemma length_singleHeader_small:
  "1 < n \<Longrightarrow> n < 10 \<Longrightarrow> length (singleHeader headerPrefix n) = length headerPrefix + 40"
  by (simp add: singleHeader_def String_nat_small length_ascii bell_def em_dash_def)

lemma length_formatDiscordEntry:
  "length (formatDiscordEntry p) =
     length (prog_name p) + 2 * length (prog_handle p) + (if prog_offers_bounties p then 52 else 49)"
  by (simp add: formatDiscordEntry_def Let_def length_ascii bullet_def em_dash_def money_bag_def
      medal_def nl_def arrow_def)

text \<open>Three entries of four characters and a limit of 40: one chunk for each entry.\<close>

theorem chunkMessages_within_limit_witness:
  "length (chunkMessages three_entries (\<lambda>p. p) [] 40) = 3
   \<and> list_all (\<lambda>c. length c \<le> 40) (chunkMessages three_entries (\<lambda>p. p) [] 40)"
proof -
  have h: "\<forall>p \<in> set three_entries. \<forall>k \<in> {1..length three_entries}.
      length (header [] (length three_entries) k) + 2 + length ((\<lambda>p. p) p) \<le> 40"
    by (auto simp: three_entries_def length_header_small length_ascii)
  have s1: "chunk_step [] 3 40 ([], [], 0) (ascii ''aaaa'') = ([], [ascii ''aaaa''], 4)"
    by (simp add: chunk_step_def Let_def length_ascii)
  have s2: "chunk_step [] 3 40 ([], [ascii ''aaaa''], 4) (ascii ''bbbb'') =
      ([header [] 3 1 @ nl @ nl @ ascii ''aaaa''], [ascii ''bbbb''], 4)"
    by (simp add: chunk_step_def Let_def length_ascii length_header_small nl_def)
  have s3: "chunk_step [] 3 40 ([header [] 3 1 @ nl @ nl @ ascii ''aaaa''], [ascii ''bbbb''], 4)
        (ascii ''cccc'') =
      ([header [] 3 1 @ nl @ nl @ ascii ''aaaa'', header [] 3 2 @ nl @ nl @ ascii ''bbbb''],
       [ascii ''cccc''], 4)"
    by (simp add: chunk_step_def Let_def length_ascii length_header_small nl_def numeral_2_eq_2)
  have "chunkMessages three_entries (\<lambda>p. p) [] 40 =
      [header [] 3 1 @ nl @ nl @ ascii ''aaaa'', header [] 3 2 @ nl @ nl @ ascii ''bbbb'',
       header [] 3 3 @ nl @ nl @ ascii ''cccc'']"
    using s1 s2 s3
    by (simp add: chunkMessages_def three_entries_def Let_def length_singleHeader_small
        length_ascii nl_def numeral_2_eq_2 numeral_3_eq_3)
  then have 1: "length (chunkMessages three_entries (\<lambda>p. p) [] 40) = 3" by simp
  from chunkMessages_within_limit [OF h]
  have 2: "list_all (\<lambda>c. length c \<le> 40) (chunkMessages three_entries (\<lambda>p. p) [] 40)"
    by (simp add: list_all_iff)
  from 1 2 show ?thesis by blast
qed

text \<open>
  Claim C2 as stated fails for two programs whose Discord entries are 1990 and 1997
  characters long, both shorter than the limit of 2000: each entry is alone in its chunk,
  and with the header the chunks are 2036 and 2043 characters long.
\<close>

theorem chunkMessages_entry_near_limit:
  "map length (map formatDiscordEntry [long_acme, long_acme_renamed]) = [1990, 1997]
   \<and> DISCORD_MAX_LENGTH = 2000
   \<and> map length (chunkMessages [long_acme, long_acme_renamed] formatDiscordEntry
         (ascii ''**h1-watcher**'') DISCORD_MAX_LENGTH) = [2036, 2043]"
proof -
  let ?e1 = "formatDiscordEntry long_acme"
  let ?e2 = "formatDiscordEntry long_acme_renamed"
  let ?prefix = "ascii ''**h1-watcher**''"
  have l1: "length ?e1 = 1990"
    by (simp add: length_formatDiscordEntry long_acme_def acme_def length_ascii)
  have l2: "length ?e2 = 1997"
    by (simp add: length_formatDiscordEntry long_acme_renamed_def acme_renamed_def length_ascii)
  have s1: "chunk_step ?prefix 2 2000 ([], [], 0) ?e1 = ([], [?e1], 1990)"
    by (simp add: chunk_step_def Let_def l1)
  have s2: "chunk_step ?prefix 2 2000 ([], [?e1], 1990) ?e2 =
      ([header ?prefix 2 1 @ nl @ nl @ ?e1], [?e2], 1997)"
    by (simp add: chunk_step_def Let_def l1 l2 length_header_small length_ascii nl_def)
  have c: "chunkMessages [long_acme, long_acme_renamed] formatDiscordEntry ?prefix 2000 =
      [header ?prefix 2 1 @ nl @ nl @ ?e1, header ?prefix 2 2 @ nl @ nl @ ?e2]"
    using s1 s2
    by (simp add: chunkMessages_def Let_def length_singleHeader_small l1 l2 length_ascii nl_def
        numeral_2_eq_2)
  show ?thesis
    by (simp add: DISCORD_MAX_LENGTH_def c l1 l2 length_header_small length_ascii nl_def)
qed

lemma send_chunks_each:
  "send_chunks send cs channelOk tr =
     (case each_send send cs tr of (rs, tr') \<Rightarrow> (channelOk \<and> list_all id rs, tr'))"
  by (induction cs arbitrary: channelOk tr) (auto split: prod.splits)

lemma length_each_send: "each_send send cs tr = (rs, tr') \<Longrightarrow> length rs = length cs"
  by (induction cs arbitrary: tr rs tr') (auto split: prod.splits)

lemma sendTelegram_failure:
  "\<forall>r. fetchFn tr (telegram_request env text) = Responded r \<longrightarrow> \<not> ok r \<Longrightarrow>
   \<not> fst (sendTelegram env fetchFn text tr)"
  by (auto simp: sendTelegram_def split: outcome.splits)

lemma sendDiscord_failure:
  "\<forall>r. fetchFn tr (discord_request env text) = Responded r \<longrightarrow> \<not> ok r \<Longrightarrow>
   \<not> fst (sendDiscord env fetchFn text tr)"
  by (auto simp: sendDiscord_def ok_def split: outcome.splits)

lemma sendTelegram_result:
  "fst (sendTelegram env fetchFn text tr) =
     (\<not> unset (TELEGRAM_BOT_TOKEN env) \<and> \<not> unset (TELEGRAM_CHAT_ID env)
      \<and> (\<exists>r. fetchFn tr (telegram_request env text) = Responded r \<and> ok r))"
  by (auto simp: sendTelegram_def split: outcome.splits)

lemma sendDiscord_result:
  "fst (sendDiscord env fetchFn text tr) =
     (\<not> unset (DISCORD_WEBHOOK_URL env)
      \<and> (\<exists>r. fetchFn tr (discord_request env text) = Responded r \<and> ok r))"
  by (auto simp: sendDiscord_def ok_def split: outcome.splits)

lemma sendTelegram_trace:
  "\<not> unset (TELEGRAM_BOT_TOKEN env) \<Longrightarrow> \<not> unset (TELEGRAM_CHAT_ID env) \<Longrightarrow>
   snd (sendTelegram env fetchFn text tr) = tr @ [Fetch (telegram_request env text)]"
  by (simp add: sendTelegram_def split: outcome.splits)

lemma sendDiscord_trace:
  "\<not> unset (DISCORD_WEBHOOK_URL env) \<Longrightarrow>
   snd (sendDiscord env fetchFn text tr) = tr @ [Fetch (discord_request env text)]"
  by (simp add: sendDiscord_def split: outcome.splits)

lemma each_send_trace:
  assumes "\<And>text tr. snd (send text tr) = tr @ [Fetch (mk text)]"
  shows "each_send send cs tr = (rs, tr') \<Longrightarrow>
     filter is_fetch tr' = filter is_fetch tr @ map (\<lambda>c. Fetch (mk c)) cs"
proof (induction cs arbitrary: tr rs tr')
  case Nil
  then show ?case by simp
next
  case (Cons c cs)
  obtain r tr1 where s: "send c tr = (r, tr1)" by (cases "send c tr") auto
  with assms [of c tr] have t1: "tr1 = tr @ [Fetch (mk c)]" by simp
  obtain rs2 tr2 where e: "each_send send cs (if cs \<noteq> [] then tr1 @ [Sleep 500] else tr1) = (rs2, tr2)"
    by (cases "each_send send cs (if cs \<noteq> [] then tr1 @ [Sleep 500] else tr1)") auto
  from Cons.prems s e have "tr' = tr2" by simp
  with Cons.IH [OF e] t1 show ?case by simp
qed

text \<open>
  Claim C8. For a list of new programs that is not empty, each channel has at least one
  chunk, every chunk of a channel is sent, in order, and the entry of the channel in the
  result is the conjunction of the results of these sends. On a configured channel the
  requests made are one for each chunk, whatever the earlier ones gave. The result of a
  send is \<open>true\<close> exactly when the channel is configured and \<open>fetchFn\<close> answers
  with a 2xx status: a send whose \<open>fetchFn\<close> throws or answers with a status outside
  2xx gives \<open>false\<close>, and \<open>notify\<close> returns a result in every case.
\<close>

theorem notify_reports_every_send:
  assumes "ps \<noteq> []"
  shows "\<exists>tres tr1 dres tr2.
      each_send (sendTelegram env fetchFn)
        (chunkMessages ps formatTelegramEntry (ascii ''<b>h1-watcher</b>'') TELEGRAM_MAX_LENGTH) tr
        = (tres, tr1)
    \<and> each_send (sendDiscord env fetchFn)
        (chunkMessages ps formatDiscordEntry (ascii ''**h1-watcher**'') DISCORD_MAX_LENGTH) tr1
        = (dres, tr2)
    \<and> length tres =
        length (chunkMessages ps formatTelegramEntry (ascii ''<b>h1-watcher</b>'') TELEGRAM_MAX_LENGTH)
    \<and> length dres =
        length (chunkMessages ps formatDiscordEntry (ascii ''**h1-watcher**'') DISCORD_MAX_LENGTH)
    \<and> tres \<noteq> [] \<and> dres \<noteq> []
    \<and> notify env fetchFn (Some ps) tr =
        (\<lparr>telegram = list_all id tres, discord = list_all id dres\<rparr>, tr2)
    \<and> (\<not> unset (TELEGRAM_BOT_TOKEN env) \<and> \<not> unset (TELEGRAM_CHAT_ID env) \<longrightarrow>
          filter is_fetch tr1 = filter is_fetch tr
            @ map (\<lambda>c. Fetch (telegram_request env c))
                (chunkMessages ps formatTelegramEntry (ascii ''<b>h1-watcher</b>'')
                   TELEGRAM_MAX_LENGTH))
    \<and> (\<not> unset (DISCORD_WEBHOOK_URL env) \<longrightarrow>
          filter is_fetch tr2 = filter is_fetch tr1
            @ map (\<lambda>c. Fetch (discord_request env c))
                (chunkMessages ps formatDiscordEntry (ascii ''**h1-watcher**'')
                   DISCORD_MAX_LENGTH))
    \<and> (\<forall>text tr0. (\<forall>r. fetchFn tr0 (telegram_request env text) = Responded r \<longrightarrow> \<not> ok r) \<longrightarrow>
          \<not> fst (sendTelegram env fetchFn text tr0))
    \<and> (\<forall>text tr0. (\<forall>r. fetchFn tr0 (discord_request env text) = Responded r \<longrightarrow> \<not> ok r) \<longrightarrow>
          \<not> fst (sendDiscord env fetchFn text tr0))
    \<and> (\<forall>text tr0. fst (sendTelegram env fetchFn text tr0) =
          (\<not> unset (TELEGRAM_BOT_TOKEN env) \<and> \<not> unset (TELEGRAM_CHAT_ID env)
           \<and> (\<exists>r. fetchFn tr0 (telegram_request env text) = Responded r \<and> ok r)))
    \<and> (\<forall>text tr0. fst (sendDiscord env fetchFn text tr0) =
          (\<not> unset (DISCORD_WEBHOOK_URL env)
           \<and> (\<exists>r. fetchFn tr0 (discord_request env text) = Responded r \<and> ok r)))"
proof -
  let ?tc = "chunkMessages ps formatTelegramEntry (ascii ''<b>h1-watcher</b>'') TELEGRAM_MAX_LENGTH"
  let ?dc = "chunkMessages ps formatDiscordEntry (ascii ''**h1-watcher**'') DISCORD_MAX_LENGTH"
  obtain tres tr1 where t: "each_send (sendTelegram env fetchFn) ?tc tr = (tres, tr1)"
    by (cases "each_send (sendTelegram env fetchFn) ?tc tr") auto
  obtain dres tr2 where d: "each_send (sendDiscord env fetchFn) ?dc tr1 = (dres, tr2)"
    by (cases "each_send (sendDiscord env fetchFn) ?dc tr1") auto
  from assms have tne: "?tc \<noteq> []" and dne: "?dc \<noteq> []"
    by (simp_all add: chunkMessages_not_empty)
  from length_each_send [OF t] have lt: "length tres = length ?tc" .
  from length_each_send [OF d] have ld: "length dres = length ?dc" .
  from lt tne have tn: "tres \<noteq> []" by auto
  from ld dne have dn: "dres \<noteq> []" by auto
  have n: "notify env fetchFn (Some ps) tr =
        (\<lparr>telegram = list_all id tres, discord = list_all id dres\<rparr>, tr2)"
    using assms tne dne by (simp add: notify_def Let_def send_chunks_each t d)
  have ft: "\<not> unset (TELEGRAM_BOT_TOKEN env) \<and> \<not> unset (TELEGRAM_CHAT_ID env) \<longrightarrow>
      filter is_fetch tr1 = filter is_fetch tr @ map (\<lambda>c. Fetch (telegram_request env c)) ?tc"
  proof
    assume c: "\<not> unset (TELEGRAM_BOT_TOKEN env) \<and> \<not> unset (TELEGRAM_CHAT_ID env)"
    show "filter is_fetch tr1 = filter is_fetch tr @ map (\<lambda>c. Fetch (telegram_request env c)) ?tc"
      by (rule each_send_trace [OF _ t]) (simp add: sendTelegram_trace c)
  qed
  have fd: "\<not> unset (DISCORD_WEBHOOK_URL env) \<longrightarrow>
      filter is_fetch tr2 = filter is_fetch tr1 @ map (\<lambda>c. Fetch (discord_request env c)) ?dc"
  proof
    assume c: "\<not> unset (DISCORD_WEBHOOK_URL env)"
    show "filter is_fetch tr2 = filter is_fetch tr1 @ map (\<lambda>c. Fetch (discord_request env c)) ?dc"
      by (rule each_send_trace [OF _ d]) (simp add: sendDiscord_trace c)
  qed
  have xt: "\<forall>text tr0. (\<forall>r. fetchFn tr0 (telegram_request env text) = Responded r \<longrightarrow> \<not> ok r) \<longrightarrow>
      \<not> fst (sendTelegram env fetchFn text tr0)"
    using sendTelegram_failure [of fetchFn _ env] by blast
  have xd: "\<forall>text tr0. (\<forall>r. fetchFn tr0 (discord_request env text) = Responded r \<longrightarrow> \<not> ok r) \<longrightarrow>
      \<not> fst (sendDiscord env fetchFn text tr0)"
    using sendDiscord_failure [of fetchFn _ env] by blast
  have rt: "\<forall>text tr0. fst (sendTelegram env fetchFn text tr0) =
      (\<not> unset (TELEGRAM_BOT_TOKEN env) \<and> \<not> unset (TELEGRAM_CHAT_ID env)
       \<and> (\<exists>r. fetchFn tr0 (telegram_request env text) = Responded r \<and> ok r))"
    by (intro allI) (rule sendTelegram_result)
  have rd: "\<forall>text tr0. fst (sendDiscord env fetchFn text tr0) =
      (\<not> unset (DISCORD_WEBHOOK_URL env)
       \<and> (\<exists>r. fetchFn tr0 (discord_request env text) = Responded r \<and> ok r))"
    by (intro allI) (rule sendDiscord_result)
  show ?thesis
    apply (rule exI [of _ tres], rule exI [of _ tr1], rule exI [of _ dres], rule exI [of _ tr2])
    apply (intro conjI)
    apply (rule t, rule d, rule lt, rule ld, rule tn, rule dn, rule n, rule ft, rule fd,
        rule xt, rule xd, rule rt, rule rd)
    done
qed

lemma length_singleHeader_one:
  "length (singleHeader headerPrefix (Suc 0)) = length headerPrefix + 39"
  by (simp add: singleHeader_def String_nat_small length_ascii bell_def em_dash_def)

lemma telegram_chunks_acme:
  "chunkMessages [acme] formatTelegramEntry (ascii ''<b>h1-watcher</b>'') TELEGRAM_MAX_LENGTH =
     [singleHeader (ascii ''<b>h1-watcher</b>'') 1 @ nl @ nl @ formatTelegramEntry acme]"
proof -
  have "length (formatTelegramEntry acme) = 81"
    by (simp add: formatTelegramEntry_def Let_def escapeHtml_def replace_all_def acme_def
        ascii_def bullet_def em_dash_def money_bag_def nl_def arrow_def)
  then show ?thesis
    by (simp add: chunkMessages_def Let_def TELEGRAM_MAX_LENGTH_def length_singleHeader_one
        length_ascii nl_def)
qed

lemma discord_chunks_acme:
  "chunkMessages [acme] formatDiscordEntry (ascii ''**h1-watcher**'') DISCORD_MAX_LENGTH =
     [singleHeader (ascii ''**h1-watcher**'') 1 @ nl @ nl @ formatDiscordEntry acme]"
  by (simp add: chunkMessages_def Let_def DISCORD_MAX_LENGTH_def length_singleHeader_one
      length_formatDiscordEntry acme_def length_ascii nl_def)

text \<open>
  Both channels configured, one program, and a network that fails the first request: the
  Telegram send fails, and the Discord send is still made and succeeds. With a network
  that accepts every request both channels report success.
\<close>

theorem notify_reports_every_send_witness:
  "fst (notify sample_environment first_fails (Some [acme]) []) =
     \<lparr>telegram = False, discord = True\<rparr>
   \<and> length (snd (notify sample_environment first_fails (Some [acme]) [])) = 2
   \<and> fst (notify sample_environment always_ok (Some [acme]) []) =
     \<lparr>telegram = True, discord = True\<rparr>"
proof -
  let ?t = "singleHeader (ascii ''<b>h1-watcher</b>'') 1 @ nl @ nl @ formatTelegramEntry acme"
  let ?d = "singleHeader (ascii ''**h1-watcher**'') 1 @ nl @ nl @ formatDiscordEntry acme"
  have u: "\<not> unset (TELEGRAM_BOT_TOKEN sample_environment)"
      "\<not> unset (TELEGRAM_CHAT_ID sample_environment)"
      "\<not> unset (DISCORD_WEBHOOK_URL sample_environment)"
    by (simp_all add: sample_environment_def unset_def ascii_def)
  have ne: "[acme] \<noteq> []" by simp
  have st: "sendTelegram sample_environment first_fails ?t [] =
      (False, [Fetch (telegram_request sample_environment ?t)])"
    using u by (simp add: sendTelegram_def first_fails_def ok_def)
  have sd: "sendDiscord sample_environment first_fails ?d
        [Fetch (telegram_request sample_environment ?t)] =
      (True, [Fetch (telegram_request sample_environment ?t),
              Fetch (discord_request sample_environment ?d)])"
    using u by (simp add: sendDiscord_def first_fails_def ok_def)
  from notify_reports_every_send [OF ne, of sample_environment first_fails "[]"]
  obtain tres tr1 dres tr2 where
    e1: "each_send (sendTelegram sample_environment first_fails)
        (chunkMessages [acme] formatTelegramEntry (ascii ''<b>h1-watcher</b>'') TELEGRAM_MAX_LENGTH) []
        = (tres, tr1)"
    and e2: "each_send (sendDiscord sample_environment first_fails)
        (chunkMessages [acme] formatDiscordEntry (ascii ''**h1-watcher**'') DISCORD_MAX_LENGTH) tr1
        = (dres, tr2)"
    and n1: "notify sample_environment first_fails (Some [acme]) [] =
        (\<lparr>telegram = list_all id tres, discord = list_all id dres\<rparr>, tr2)"
    by blast
  from e1 st have t1: "tres = [False]" "tr1 = [Fetch (telegram_request sample_environment ?t)]"
    unfolding telegram_chunks_acme by auto
  from e2 sd t1 have d1: "dres = [True]"
      "tr2 = [Fetch (telegram_request sample_environment ?t),
              Fetch (discord_request sample_environment ?d)]"
    unfolding discord_chunks_acme by auto
  from n1 t1 d1 have 1: "fst (notify sample_environment first_fails (Some [acme]) []) =
      \<lparr>telegram = False, discord = True\<rparr>"
    and 2: "length (snd (notify sample_environment first_fails (Some [acme]) [])) = 2"
    by simp_all
  from notify_reports_every_send [OF ne, of sample_environment always_ok "[]"]
  obtain ores or1 pres or2 where
    o1: "each_send (sendTelegram sample_environment always_ok)
        (chunkMessages [acme] formatTelegramEntry (ascii ''<b>h1-watcher</b>'') TELEGRAM_MAX_LENGTH) []
        = (ores, or1)"
    and o2: "each_send (sendDiscord sample_environment always_ok)
        (chunkMessages [acme] formatDiscordEntry (ascii ''**h1-watcher**'') DISCORD_MAX_LENGTH) or1
        = (pres, or2)"
    and n2: "notify sample_environment always_ok (Some [acme]) [] =
        (\<lparr>telegram = list_all id ores, discord = list_all id pres\<rparr>, or2)"
    and rt: "\<forall>text tr0. fst (sendTelegram sample_environment always_ok text tr0) =
          (\<not> unset (TELEGRAM_BOT_TOKEN sample_environment)
           \<and> \<not> unset (TELEGRAM_CHAT_ID sample_environment)
           \<and> (\<exists>r. always_ok tr0 (telegram_request sample_environment text) = Responded r \<and> ok r))"
    and rd: "\<forall>text tr0. fst (sendDiscord sample_environment always_ok text tr0) =
          (\<not> unset (DISCORD_WEBHOOK_URL sample_environment)
           \<and> (\<exists>r. always_ok tr0 (discord_request sample_environment text) = Responded r \<and> ok r))"
    by blast
  have okt: "\<And>text tr0. fst (sendTelegram sample_environment always_ok text tr0)"
    using rt u by (simp add: always_ok_def ok_def)
  have okd: "\<And>text tr0. fst (sendDiscord sample_environment always_ok text tr0)"
    using rd u by (simp add: always_ok_def ok_def)
  from o1 okt [of ?t "[]"] have t2: "ores = [True]"
    unfolding telegram_chunks_acme by (auto split: prod.splits)
  from o2 okd [of ?d or1] have d2: "pres = [True]"
    unfolding discord_chunks_acme by (auto split: prod.splits)
  from n2 t2 d2 have 3: "fst (notify sample_environment always_ok (Some [acme]) []) =
      \<lparr>telegram = True, discord = True\<rparr>"
    by simp
  from 1 2 3 show ?thesis by blast
qed

end
